theory Spec2Isabelle
  imports Complex_Main "HOL-Library.Sublist"
begin

section \<open>Mixing matrix and constraint vector of Skyclean (silc/mixing\_matrix\_constraint.py)\<close>

text \<open>
  A shallow embedding of \<^verbatim>\<open>find_f_from_names\<close>, \<^verbatim>\<open>SpectralVector\<close> and
  \<^verbatim>\<open>ILCConstraints\<close>.

  Conventions of the embedding.
  \<^item> A Python \<^verbatim>\<open>str\<close> is a \<^typ>\<open>string\<close> of ASCII characters; \<^verbatim>\<open>str.lower\<close> maps
    the letters A to Z to a to z and leaves every other character alone.
  \<^item> A numpy float is a \<^typ>\<open>real\<close>: rounding and overflow are not modelled. numpy
    divides by zero without raising (the result is inf or nan), whereas HOL's
    \<open>x / 0\<close> is \<open>0\<close>; statements about computed values therefore say where the
    denominators are non-zero.
  \<^item> An exception is a value of type \<open>error\<close>; a function that can raise returns
    \<open>error + 'a\<close>, with \<open>Inl\<close> the exception.
  \<^item> The calls to \<^verbatim>\<open>print\<close> do not change any returned value and are left out.
\<close>

subsection \<open>Strings\<close>

definition upper_to_lower :: "(char \<times> char) list" where
  "upper_to_lower = zip ''ABCDEFGHIJKLMNOPQRSTUVWXYZ'' ''abcdefghijklmnopqrstuvwxyz''"

definition lower_char :: "char \<Rightarrow> char" where
  "lower_char c = (case map_of upper_to_lower c of None \<Rightarrow> c | Some d \<Rightarrow> d)"

definition lower :: "string \<Rightarrow> string" where
  "lower s = map lower_char s"

subsection \<open>Exceptions\<close>

text \<open>
  The text of a \<^verbatim>\<open>ValueError\<close> raised by this module is kept as the pieces of its
  f-string: literal text (a formatted \<^verbatim>\<open>str\<close> is its own text) and the lists that
  are formatted into it. An exception raised inside a builtin or a library call
  (\<^verbatim>\<open>float\<close>, \<^verbatim>\<open>str.format\<close>, healpy, numpy) is \<open>Foreign\<close>, with a description.
\<close>

datatype piece = Text string | Listing "string list"

datatype error = ValueError "piece list" | Foreign string

subsection \<open>find\_f\_from\_names\<close>

text \<open>\<^verbatim>\<open>selected\<close> is a single name or a list of names.\<close>

datatype selection = Single string | Many "string list"

text \<open>\<^verbatim>\<open>list.index\<close>: the first position of a value, \<open>None\<close> where Python raises.\<close>

fun index_of :: "'a list \<Rightarrow> 'a \<Rightarrow> nat option" where
  "index_of [] y = None"
| "index_of (x # xs) y = (if x = y then Some 0 else map_option Suc (index_of xs y))"

definition not_in_component_names :: "string \<Rightarrow> string list \<Rightarrow> error" where
  "not_in_component_names name component_names =
     ValueError [Text name, Text '' not in component_names='', Listing component_names]"

text \<open>The \<^verbatim>\<open>for name in selected\<close> loop, with the state \<open>(f, idxs)\<close> it updates.\<close>

fun find_f_loop ::
  "string list \<Rightarrow> string list \<Rightarrow> string list \<Rightarrow> real list \<Rightarrow> nat list
   \<Rightarrow> error + (real list \<times> nat list)" where
  "find_f_loop component_names names_lower [] f idxs = Inr (f, idxs)"
| "find_f_loop component_names names_lower (name # rest) f idxs =
     (let key = lower name in
      case index_of names_lower key of
        None \<Rightarrow> Inl (not_in_component_names name component_names)
      | Some idx \<Rightarrow>
          if idx \<notin> set idxs
          then find_f_loop component_names names_lower rest (f[idx := 1]) (idxs @ [idx])
          else find_f_loop component_names names_lower rest f idxs)"

definition names_of :: "selection \<Rightarrow> string list" where
  "names_of selected = (case selected of Single s \<Rightarrow> [s] | Many xs \<Rightarrow> xs)"

definition find_f_from_names ::
  "string list \<Rightarrow> selection \<Rightarrow> error + (real list \<times> nat list)" where
  "find_f_from_names component_names selected =
     (let selected' = names_of selected;
          names_lower = map lower component_names;
          f = replicate (length component_names) 0;
          idxs = []
      in find_f_loop component_names names_lower selected' f idxs)"

text \<open>
  Specification side: every value of a list once, in the order of its first occurrence.
\<close>

fun first_occurrences :: "'a list \<Rightarrow> 'a list" where
  "first_occurrences [] = []"
| "first_occurrences (x # xs) = x # first_occurrences (removeAll x xs)"

subsection \<open>numpy arrays and dictionaries\<close>

text \<open>
  A one-dimensional array is a list. A two-dimensional array keeps its shape beside
  its rows, so that an array with no column still has its number of rows.
\<close>

record matrix =
  shape :: "nat \<times> nat"
  rows :: "real list list"

text \<open>\<^verbatim>\<open>np.zeros((n, m))\<close>\<close>

definition zeros2 :: "nat \<Rightarrow> nat \<Rightarrow> matrix" where
  "zeros2 n m = \<lparr>shape = (n, m), rows = replicate n (replicate m 0)\<rparr>"

text \<open>
  \<^verbatim>\<open>np.column_stack\<close> of one-dimensional arrays: numpy raises a \<^verbatim>\<open>ValueError\<close> for an
  empty sequence and for arrays of different lengths.
\<close>

definition column_stack :: "real list list \<Rightarrow> error + matrix" where
  "column_stack vs =
     (case vs of
        [] \<Rightarrow> Inl (Foreign ''ValueError: need at least one array to concatenate'')
      | v # ws \<Rightarrow>
          if list_all (\<lambda>w. length w = length v) ws
          then Inr \<lparr>shape = (length v, length vs),
                    rows = map (\<lambda>i. map (\<lambda>w. w ! i) vs) [0..<length v]\<rparr>
          else Inl (Foreign ''ValueError: all the input array dimensions must match''))"

text \<open>\<^verbatim>\<open>F[:, j]\<close>\<close>

definition column :: "matrix \<Rightarrow> nat \<Rightarrow> real list" where
  "column F j = map (\<lambda>r. r ! j) (rows F)"

text \<open>
  A \<^verbatim>\<open>dict\<close> keeps its keys in the order of their first insertion: an association
  list with one entry per key.
\<close>

type_synonym ('k, 'v) dict = "('k \<times> 'v) list"

fun dict_set :: "('k, 'v) dict \<Rightarrow> 'k \<Rightarrow> 'v \<Rightarrow> ('k, 'v) dict" where
  "dict_set [] k v = [(k, v)]"
| "dict_set ((k', v') # d) k v = (if k' = k then (k, v) # d else (k', v') # dict_set d k v)"

definition keys :: "('k, 'v) dict \<Rightarrow> 'k list" where
  "keys d = map fst d"

text \<open>\<^verbatim>\<open>d[k]\<close>, a \<^verbatim>\<open>KeyError\<close> for a key that is not there.\<close>

definition getitem :: "(string, 'v) dict \<Rightarrow> string \<Rightarrow> error + 'v" where
  "getitem d k = (case map_of d k of None \<Rightarrow> Inl (Foreign (''KeyError: '' @ k)) | Some v \<Rightarrow> Inr v)"

text \<open>A list comprehension \<^verbatim>\<open>[g(a) for a in as]\<close> whose \<open>g\<close> can raise.\<close>

fun comprehension :: "('a \<Rightarrow> error + 'b) \<Rightarrow> 'a list \<Rightarrow> error + 'b list" where
  "comprehension g [] = Inr []"
| "comprehension g (a # as) =
     (case g a of
        Inl e \<Rightarrow> Inl e
      | Inr b \<Rightarrow> (case comprehension g as of Inl e \<Rightarrow> Inl e | Inr bs \<Rightarrow> Inr (b # bs)))"

text \<open>A dict comprehension \<^verbatim>\<open>{c: g(c) for c in cs}\<close>, started from a dict \<open>d\<close>.\<close>

fun dict_comprehension ::
  "(string \<Rightarrow> error + 'v) \<Rightarrow> string list \<Rightarrow> (string, 'v) dict \<Rightarrow> error + (string, 'v) dict" where
  "dict_comprehension g [] d = Inr d"
| "dict_comprehension g (c # cs) d =
     (case g c of Inl e \<Rightarrow> Inl e | Inr v \<Rightarrow> dict_comprehension g cs (dict_set d c v))"

subsection \<open>SpectralVector.build\_F\_theory\<close>

text \<open>
  The builtin \<^verbatim>\<open>float\<close> applied to a frequency tag is a parameter \<open>float_of\<close> of the
  model: \<open>Inr\<close> the value, or \<open>Inl\<close> a description of the \<^verbatim>\<open>ValueError\<close> it raises.
\<close>

type_synonym float_builtin = "string \<Rightarrow> string + real"

definition to_float :: "float_builtin \<Rightarrow> string \<Rightarrow> error + real" where
  "to_float float_of s = (case float_of s of Inl d \<Rightarrow> Inl (Foreign d) | Inr v \<Rightarrow> Inr v)"

definition default_frequencies :: "string list" where
  "default_frequencies =
     [''030'', ''044'', ''070'', ''100'', ''143'', ''217'', ''353'', ''545'', ''857'']"

definition h_planck :: real where "h_planck = 662607015 / 10 ^ 42"

definition k_boltzmann :: real where "k_boltzmann = 1380649 / 10 ^ 29"

definition T_cmb :: real where "T_cmb = 27255 / 10 ^ 4"

text \<open>
  The entries of \<^verbatim>\<open>x\<close> and \<^verbatim>\<open>g_nu\<close> at one frequency \<open>nu\<close> (in Hz). At \<open>x = 0\<close> numpy
  computes \<open>0 / 0\<close>, which is nan; the real number \<open>g_nu 0\<close> is not that value.
\<close>

definition x_of :: "real \<Rightarrow> real" where
  "x_of nu = h_planck * nu / (k_boltzmann * T_cmb)"

definition g_nu :: "real \<Rightarrow> real" where
  "g_nu nu = ((x_of nu)\<^sup>2 * exp (x_of nu)) / (exp (x_of nu) - 1)\<^sup>2"

text \<open>
  The three response vectors, entry by entry. numpy's \<^verbatim>\<open>**\<close> with a real exponent is
  \<open>powr\<close> where the base is positive. Where a denominator is zero (\<open>x = 0\<close>,
  \<open>nu0 = 0\<close>) or the base is not positive, numpy computes nan or inf and the real
  numbers below are not those values: what is stated about the values of
  \<open>tsz_response\<close> and \<open>sync_response\<close> is stated where \<open>responses_defined\<close> holds.
\<close>

definition cmb_response :: "real \<Rightarrow> real" where
  "cmb_response nu = 1"

definition tsz_response :: "real \<Rightarrow> real" where
  "tsz_response nu = x_of nu * ((exp (x_of nu) + 1) / (exp (x_of nu) - 1)) - 4"

definition sync_response :: "real \<Rightarrow> real \<Rightarrow> real \<Rightarrow> real" where
  "sync_response beta_s nu0 nu = (nu / nu0) powr beta_s / g_nu nu"

type_synonym F_result = "matrix \<times> string list \<times> (string, real list) dict \<times> string list"

text \<open>The dict \<^verbatim>\<open>vecs\<close> of the three raw response vectors over the frequencies \<open>nu\<close>.\<close>

definition theory_vecs :: "real \<Rightarrow> real \<Rightarrow> real list \<Rightarrow> (string, real list) dict" where
  "theory_vecs beta_s nu0 nu =
     [(''cmb'', map cmb_response nu),
      (''tsz'', map tsz_response nu),
      (''sync'', map (sync_response beta_s nu0) nu)]"

text \<open>
  The last statement before the return, the same in both builders:
  \<^verbatim>\<open>np.column_stack([reference_vectors[c] for c in F_cols]) if F_cols else np.zeros((n, 0))\<close>.
\<close>

definition stack_columns ::
  "(string, real list) dict \<Rightarrow> string list \<Rightarrow> nat \<Rightarrow> error + matrix" where
  "stack_columns reference_vectors F_cols n =
     (if F_cols \<noteq> []
      then (case comprehension (getitem reference_vectors) F_cols of
              Inl e \<Rightarrow> Inl e
            | Inr columns \<Rightarrow> column_stack columns)
      else Inr (zeros2 n 0))"

definition build_F_theory ::
  "float_builtin \<Rightarrow> real \<Rightarrow> real \<Rightarrow> string list option \<Rightarrow> string list option
   \<Rightarrow> error + F_result" where
  "build_F_theory float_of beta_s nu0 frequencies components_order =
     (let frequencies' = (case frequencies of None \<Rightarrow> default_frequencies | Some fs \<Rightarrow> fs) in
      case comprehension (to_float float_of) frequencies' of
        Inl e \<Rightarrow> Inl e
      | Inr values \<Rightarrow>
          let nu = map (\<lambda>v. v * 10 ^ 9) values;
              vecs = theory_vecs beta_s nu0 nu;
              F_cols = (case components_order of
                          None \<Rightarrow> [''cmb'', ''tsz'', ''sync'']
                        | Some order \<Rightarrow>
                            (let wanted = map lower order
                             in filter (\<lambda>c. c \<in> set (keys vecs)) wanted))
          in case dict_comprehension (getitem vecs) F_cols [] of
               Inl e \<Rightarrow> Inl e
             | Inr reference_vectors \<Rightarrow>
                 (case stack_columns reference_vectors F_cols (length nu) of
                    Inl e \<Rightarrow> Inl e
                  | Inr F \<Rightarrow> Inr (F, F_cols, reference_vectors, frequencies')))"

subsection \<open>SpectralVector.build\_F\_empirical\<close>

text \<open>
  A pixel of a map read from disk is a number or one of the non-finite values of
  numpy.
\<close>

datatype pixel = Fin real | PosInf | NegInf | NaN

fun isfinite :: "pixel \<Rightarrow> bool" where
  "isfinite (Fin r) = True"
| "isfinite p = False"

text \<open>\<^verbatim>\<open>p > 0\<close>\<close>

fun positive :: "pixel \<Rightarrow> bool" where
  "positive (Fin r) = (0 < r)"
| "positive PosInf = True"
| "positive p = False"

text \<open>One entry of \<^verbatim>\<open>np.nan_to_num(v, nan=0.0, posinf=0.0, neginf=0.0)\<close>.\<close>

fun nan_to_num :: "pixel \<Rightarrow> real" where
  "nan_to_num (Fin r) = r"
| "nan_to_num p = 0"

text \<open>
  What the function reads from outside: the file system, healpy and \<^verbatim>\<open>str.format\<close>.
  A call that raises returns \<open>Inl\<close> with a description of the exception.
\<close>

record world =
  path_exists :: "string \<Rightarrow> bool"
  read_map :: "string \<Rightarrow> string + pixel list"
  get_nside :: "pixel list \<Rightarrow> string + nat"
  ud_grade :: "pixel list \<Rightarrow> nat \<Rightarrow> string + pixel list"
  format :: "string \<Rightarrow> string \<Rightarrow> int \<Rightarrow> string + string"

definition foreign :: "string + 'a \<Rightarrow> error + 'a" where
  "foreign r = (case r of Inl d \<Rightarrow> Inl (Foreign d) | Inr v \<Rightarrow> Inr v)"

text \<open>\<^verbatim>\<open>os.path.join\<close> of two components (POSIX).\<close>

definition path_join :: "string \<Rightarrow> string \<Rightarrow> string" where
  "path_join a b =
     (if b \<noteq> [] \<and> hd b = CHR ''/'' then b
      else if a = [] \<or> last a = CHR ''/'' then a @ b
      else a @ ''/'' @ b)"

text \<open>
  The nested function \<^verbatim>\<open>_mean\<close>: the mean of the finite pixels of a map, inside the
  mask when there is one, and 0.0 when no pixel is left. healpy regrids the mask to
  as many pixels as the map has; were the two lengths to differ, numpy would raise
  (broadcasting a one-pixel array is left out: a healpy map has at least 12 pixels).
  The mean is taken over the real numbers: the rounding of float64 is not modelled,
  nor a sum that overflows to inf, which \<^verbatim>\<open>nan_to_num\<close> would turn into 0.0.
\<close>

definition mean_of :: "real list \<Rightarrow> pixel" where
  "mean_of vals = (if vals \<noteq> [] then Fin (sum_list vals / real (length vals)) else Fin 0)"

definition finite_values :: "pixel list \<Rightarrow> real list" where
  "finite_values ps = map nan_to_num (filter isfinite ps)"

definition mean_map :: "world \<Rightarrow> string \<Rightarrow> pixel list option \<Rightarrow> error + pixel" where
  "mean_map w path msk =
     (case foreign (read_map w path) of
        Inl e \<Rightarrow> Inl e
      | Inr M \<Rightarrow>
          (case msk of
             Some mask_map \<Rightarrow>
               (case foreign (get_nside w M) of
                  Inl e \<Rightarrow> Inl e
                | Inr nside \<Rightarrow>
                    (case foreign (ud_grade w mask_map nside) of
                       Inl e \<Rightarrow> Inl e
                     | Inr graded \<Rightarrow>
                         let m = map positive graded in
                         if length m \<noteq> length M
                         then Inl (Foreign ''ValueError: operands could not be broadcast together'')
                         else Inr (mean_of (finite_values
                                 (map fst (filter (\<lambda>(p, b). isfinite p \<and> b) (zip M m)))))))
           | None \<Rightarrow> Inr (mean_of (finite_values M))))"

text \<open>
  The inner loop \<^verbatim>\<open>for i, f in enumerate(frequencies)\<close> over the array \<open>v\<close>, from
  index \<open>i\<close> on.
\<close>

fun fill_v ::
  "world \<Rightarrow> string \<Rightarrow> string \<Rightarrow> int \<Rightarrow> pixel list option \<Rightarrow> nat \<Rightarrow> string list
   \<Rightarrow> pixel list \<Rightarrow> error + pixel list" where
  "fill_v w base_dir tmpl realization msk i [] v = Inr v"
| "fill_v w base_dir tmpl realization msk i (f # fs) v =
     (case foreign (format w tmpl f realization) of
        Inl e \<Rightarrow> Inl e
      | Inr name \<Rightarrow>
          let path = path_join base_dir name in
          if path_exists w path
          then (case mean_map w path msk of
                  Inl e \<Rightarrow> Inl e
                | Inr m \<Rightarrow> fill_v w base_dir tmpl realization msk (Suc i) fs (v[i := m]))
          else fill_v w base_dir tmpl realization msk (Suc i) fs v)"

text \<open>
  \<^verbatim>\<open>file_templates\<close> maps a component name to a template or to \<^verbatim>\<open>None\<close>; a name need
  not be a key.
\<close>

type_synonym templates = "string \<Rightarrow> string option option"

definition has_template :: "templates \<Rightarrow> string \<Rightarrow> bool" where
  "has_template file_templates c =
     (case file_templates c of Some (Some t) \<Rightarrow> True | _ \<Rightarrow> False)"

text \<open>
  The outer loop \<^verbatim>\<open>for comp in F_cols\<close> over the dict \<open>reference_vectors\<close>. A name
  that is not a key raises a \<^verbatim>\<open>KeyError\<close> at \<^verbatim>\<open>file_templates[comp]\<close>; a template that
  is \<^verbatim>\<open>None\<close> raises an \<^verbatim>\<open>AttributeError\<close> at \<^verbatim>\<open>tmpl.format\<close>, which is reached when
  there is a frequency.
\<close>

fun fill_reference_vectors ::
  "world \<Rightarrow> string \<Rightarrow> templates \<Rightarrow> string list \<Rightarrow> int \<Rightarrow> pixel list option \<Rightarrow> string list
   \<Rightarrow> (string, real list) dict \<Rightarrow> error + (string, real list) dict" where
  "fill_reference_vectors w base_dir file_templates frequencies realization msk [] rv = Inr rv"
| "fill_reference_vectors w base_dir file_templates frequencies realization msk (component # components) rv =
     (case file_templates component of
        Some (Some tmpl) \<Rightarrow>
          (case fill_v w base_dir tmpl realization msk 0 frequencies
                  (replicate (length frequencies) (Fin 0)) of
             Inl e \<Rightarrow> Inl e
           | Inr v \<Rightarrow>
               fill_reference_vectors w base_dir file_templates frequencies realization msk components
                 (dict_set rv component (map nan_to_num v)))
      | Some None \<Rightarrow>
          if frequencies \<noteq> []
          then Inl (Foreign ''AttributeError: NoneType object has no attribute format'')
          else fill_reference_vectors w base_dir file_templates frequencies realization msk
                 components (dict_set rv component [])
      | None \<Rightarrow> Inl (Foreign (''KeyError: '' @ component)))"

definition no_valid_components :: error where
  "no_valid_components =
     ValueError [Text ''No valid components in file_templates for empirical F.'']"

definition build_F_empirical ::
  "world \<Rightarrow> string \<Rightarrow> templates \<Rightarrow> string list \<Rightarrow> int \<Rightarrow> string \<Rightarrow> string list option
   \<Rightarrow> error + F_result" where
  "build_F_empirical w base_dir file_templates frequencies realization mask_path components_order =
     (case (if mask_path \<noteq> [] then map_sum id Some (foreign (read_map w mask_path))
            else Inr None) of
        Inl e \<Rightarrow> Inl e
      | Inr msk \<Rightarrow>
          let default = [''cmb'', ''tsz'', ''sync''];
              wanted = map lower (case components_order of
                                    None \<Rightarrow> default
                                  | Some order \<Rightarrow> if order \<noteq> [] then order else default);
              F_cols = filter (has_template file_templates) wanted
          in if F_cols = [] then Inl no_valid_components
             else
               (case fill_reference_vectors w base_dir file_templates frequencies realization
                       msk F_cols [] of
                  Inl e \<Rightarrow> Inl e
                | Inr reference_vectors \<Rightarrow>
                    (case stack_columns reference_vectors F_cols (length frequencies) of
                       Inl e \<Rightarrow> Inl e
                     | Inr F \<Rightarrow> Inr (F, F_cols, reference_vectors, frequencies))))"

subsection \<open>SpectralVector.get\_F\<close>

text \<open>
  The keyword arguments passed on by \<^verbatim>\<open>get_F\<close>: for each parameter of the two
  builders the value given, if any, and the names of any other keywords. Python binds
  them at the call: an unexpected keyword and a missing required argument raise a
  \<^verbatim>\<open>TypeError\<close>, and a parameter that is not given takes its default.
\<close>

record kwargs =
  kw_beta_s :: "real option"
  kw_nu0 :: "real option"
  kw_frequencies :: "string list option"
  kw_components_order :: "string list option"
  kw_base_dir :: "string option"
  kw_file_templates :: "templates option"
  kw_realization :: "int option"
  kw_mask_path :: "string option"
  kw_others :: "string list"

definition unexpected_keyword :: error where
  "unexpected_keyword = Foreign ''TypeError: got an unexpected keyword argument''"

definition missing_argument :: error where
  "missing_argument = Foreign ''TypeError: missing required positional argument''"

definition call_build_F_theory :: "float_builtin \<Rightarrow> kwargs \<Rightarrow> error + F_result" where
  "call_build_F_theory float_of kw =
     (if kw_base_dir kw \<noteq> None \<or> kw_file_templates kw \<noteq> None \<or> kw_realization kw \<noteq> None \<or>
         kw_mask_path kw \<noteq> None \<or> kw_others kw \<noteq> []
      then Inl unexpected_keyword
      else build_F_theory float_of
             (case kw_beta_s kw of None \<Rightarrow> - 31 / 10 | Some b \<Rightarrow> b)
             (case kw_nu0 kw of None \<Rightarrow> 30 * 10 ^ 9 | Some n \<Rightarrow> n)
             (kw_frequencies kw) (kw_components_order kw))"

definition call_build_F_empirical :: "world \<Rightarrow> kwargs \<Rightarrow> error + F_result" where
  "call_build_F_empirical w kw =
     (if kw_beta_s kw \<noteq> None \<or> kw_nu0 kw \<noteq> None \<or> kw_others kw \<noteq> []
      then Inl unexpected_keyword
      else case (kw_base_dir kw, kw_file_templates kw, kw_frequencies kw) of
             (Some base_dir, Some file_templates, Some frequencies) \<Rightarrow>
               build_F_empirical w base_dir file_templates frequencies
                 (case kw_realization kw of None \<Rightarrow> 0 | Some r \<Rightarrow> r)
                 (case kw_mask_path kw of None \<Rightarrow> [] | Some p \<Rightarrow> p)
                 (kw_components_order kw)
           | _ \<Rightarrow> Inl missing_argument)"

definition unknown_source :: error where
  "unknown_source = ValueError [Text ''source must be 'theory' or 'empirical'.'']"

definition get_F :: "float_builtin \<Rightarrow> world \<Rightarrow> string \<Rightarrow> kwargs \<Rightarrow> error + F_result" where
  "get_F float_of w source kw =
     (if source = ''theory'' then call_build_F_theory float_of kw
      else if source = ''empirical'' then call_build_F_empirical w kw
      else Inl unknown_source)"

subsection \<open>ILCConstraints.find\_f\_from\_extract\_comp\<close>

definition find_f_from_extract_comp ::
  "matrix \<Rightarrow> selection \<Rightarrow> (string, real list) dict \<Rightarrow> string list option \<Rightarrow> error + real list" where
  "find_f_from_extract_comp F extract_comp_or_comps reference_vectors F_cols =
     (let names = (case extract_comp_or_comps of Single s \<Rightarrow> [s] | Many xs \<Rightarrow> xs);
          F_cols' = (case F_cols of None \<Rightarrow> keys reference_vectors | Some cols \<Rightarrow> cols)
      in case find_f_from_names F_cols' (Many names) of
           Inl e \<Rightarrow> Inl e
         | Inr (f, idxs) \<Rightarrow> Inr f)"

subsection \<open>Specification side\<close>

text \<open>The raw response of a supported component at a frequency \<open>nu\<close> (in Hz).\<close>

definition response :: "real \<Rightarrow> real \<Rightarrow> string \<Rightarrow> real \<Rightarrow> real" where
  "response beta_s nu0 c nu =
     (if c = ''cmb'' then cmb_response nu
      else if c = ''tsz'' then tsz_response nu
      else sync_response beta_s nu0 nu)"

text \<open>
  The entry of the empirical response vector of a template at one frequency tag: the
  mean of the map file when the template formats, the file exists and it can be read,
  with a non-finite mean replaced by 0, and 0 otherwise.
\<close>

definition measured ::
  "world \<Rightarrow> string \<Rightarrow> string \<Rightarrow> int \<Rightarrow> pixel list option \<Rightarrow> string \<Rightarrow> real" where
  "measured w base_dir tmpl realization msk f =
     (case format w tmpl f realization of
        Inl d \<Rightarrow> 0
      | Inr name \<Rightarrow>
          if path_exists w (path_join base_dir name)
          then (case mean_map w (path_join base_dir name) msk of
                  Inl e \<Rightarrow> 0
                | Inr m \<Rightarrow> nan_to_num m)
          else 0)"

text \<open>
  Where the empirical builder meets no exception from outside for a template and a
  frequency tag: the template formats, and the file it names, if it exists, is read.
\<close>

definition loads ::
  "world \<Rightarrow> string \<Rightarrow> string \<Rightarrow> int \<Rightarrow> pixel list option \<Rightarrow> string \<Rightarrow> bool" where
  "loads w base_dir tmpl realization msk f =
     (case format w tmpl f realization of
        Inl d \<Rightarrow> False
      | Inr name \<Rightarrow>
          if path_exists w (path_join base_dir name)
          then (case mean_map w (path_join base_dir name) msk of
                  Inl e \<Rightarrow> False
                | Inr m \<Rightarrow> True)
          else True)"

text \<open>The empirical response vector of a component that has a template.\<close>

definition empirical_vector ::
  "world \<Rightarrow> string \<Rightarrow> templates \<Rightarrow> string list \<Rightarrow> int \<Rightarrow> pixel list option \<Rightarrow> string
   \<Rightarrow> real list" where
  "empirical_vector w base_dir file_templates frequencies realization msk c =
     (case file_templates c of
        Some (Some tmpl) \<Rightarrow> map (measured w base_dir tmpl realization msk) frequencies
      | _ \<Rightarrow> [])"

text \<open>No exception from outside for any frequency tag of a component's template.\<close>

definition component_loads ::
  "world \<Rightarrow> string \<Rightarrow> templates \<Rightarrow> string list \<Rightarrow> int \<Rightarrow> pixel list option \<Rightarrow> string
   \<Rightarrow> bool" where
  "component_loads w base_dir file_templates frequencies realization msk c =
     (case file_templates c of
        Some (Some tmpl) \<Rightarrow> list_all (loads w base_dir tmpl realization msk) frequencies
      | _ \<Rightarrow> False)"

text \<open>
  The columns the empirical builder decides on, and the mask it reads first
  (\<open>Inr None\<close> without a mask path).
\<close>

definition empirical_F_cols :: "templates \<Rightarrow> string list option \<Rightarrow> string list" where
  "empirical_F_cols file_templates components_order =
     filter (has_template file_templates)
       (map lower (case components_order of
                     None \<Rightarrow> [''cmb'', ''tsz'', ''sync'']
                   | Some order \<Rightarrow> if order \<noteq> [] then order else [''cmb'', ''tsz'', ''sync'']))"

definition read_mask :: "world \<Rightarrow> string \<Rightarrow> error + pixel list option" where
  "read_mask w mask_path =
     (if mask_path \<noteq> [] then map_sum id Some (foreign (read_map w mask_path)) else Inr None)"

text \<open>
  Where the three raw responses are defined at a frequency: the denominators
  \<open>exp x - 1\<close> and \<open>g_nu\<close> are not zero, \<open>nu0\<close> is not zero and the base of the
  power is positive. There no division by zero occurs and numpy's result is a number.
\<close>

definition responses_defined :: "real \<Rightarrow> real \<Rightarrow> bool" where
  "responses_defined nu0 nu \<longleftrightarrow>
     exp (x_of nu) - 1 \<noteq> 0 \<and> g_nu nu \<noteq> 0 \<and> nu0 \<noteq> 0 \<and> 0 < nu / nu0"

subsection \<open>Inputs of the examples\<close>

text \<open>
  \<^verbatim>\<open>float\<close> on a string of decimal digits, which the frequency tags are. (Python's
  \<^verbatim>\<open>float\<close> accepts other strings too; this instance is used at digit strings only.)
\<close>

definition digit_of :: "char \<Rightarrow> nat option" where
  "digit_of = map_of (zip ''0123456789'' [0, 1, 2, 3, 4, 5, 6, 7, 8, 9])"

fun digits_value :: "nat \<Rightarrow> string \<Rightarrow> nat option" where
  "digits_value acc [] = Some acc"
| "digits_value acc (c # cs) =
     (case digit_of c of None \<Rightarrow> None | Some d \<Rightarrow> digits_value (10 * acc + d) cs)"

definition float_of_digits :: float_builtin where
  "float_of_digits s =
     (case (if s = [] then None else digits_value 0 s) of
        None \<Rightarrow> Inl ''ValueError: could not convert string to float''
      | Some n \<Rightarrow> Inr (real n))"

text \<open>
  A world with one map file, \<^verbatim>\<open>maps/cmb_030.fits\<close>, of twelve pixels, ten of them
  finite with mean 2. \<^verbatim>\<open>str.format\<close> is given for the one template of the examples.
\<close>

definition example_world :: world where
  "example_world =
     \<lparr>path_exists = (\<lambda>p. p = ''maps/cmb_030.fits''),
      read_map = (\<lambda>p. if p = ''maps/cmb_030.fits''
                       then Inr [Fin 1, Fin 3, NaN, PosInf, Fin 2, Fin 2, Fin 2, Fin 2,
                                 Fin 2, Fin 2, Fin 2, Fin 2]
                       else Inl ''FileNotFoundError''),
      get_nside = (\<lambda>M. if length M = 12 then Inr 1 else Inl ''ValueError: wrong pixel number''),
      ud_grade = (\<lambda>m nside. if length m = 12 \<and> nside = 1 then Inr m
                             else Inl ''not part of the example''),
      format = (\<lambda>tmpl f r. if tmpl = ''cmb_{frequency}.fits''
                            then Inr (''cmb_'' @ f @ ''.fits'')
                            else Inl ''not part of the example'')\<rparr>"

definition example_templates :: templates where
  "example_templates =
     (\<lambda>c. if c = ''cmb'' then Some (Some ''cmb_{frequency}.fits'')
          else if c = ''tsz'' then Some None
          else None)"

definition no_kwargs :: kwargs where
  "no_kwargs =
     \<lparr>kw_beta_s = None, kw_nu0 = None, kw_frequencies = None, kw_components_order = None,
      kw_base_dir = None, kw_file_templates = None, kw_realization = None,
      kw_mask_path = None, kw_others = []\<rparr>"


section \<open>Properties\<close>

subsection \<open>The name-to-column loop\<close>

lemma index_of_None_iff: "index_of xs y = None \<longleftrightarrow> y \<notin> set xs"
  by (induction xs) auto

lemma index_of_Some_iff:
  "index_of xs y = Some i \<longleftrightarrow> i < length xs \<and> xs ! i = y \<and> (\<forall>j<i. xs ! j \<noteq> y)"
proof (induction xs arbitrary: i)
  case Nil
  then show ?case by simp
next
  case (Cons x xs)
  show ?case
  proof (cases "x = y")
    case True
    then show ?thesis by (cases i) auto
  next
    case False
    show ?thesis
    proof (cases i)
      case 0
      with False show ?thesis by auto
    next
      case (Suc k)
      have "(\<forall>j<Suc k. (x # xs) ! j \<noteq> y) \<longleftrightarrow> (\<forall>j<k. xs ! j \<noteq> y)"
        using False by (auto simp: less_Suc_eq_0_disj)
      with Suc False Cons.IH [of k] show ?thesis by auto
    qed
  qed
qed

lemma find_f_loop_append:
  "find_f_loop cn nl (xs @ ys) f idxs =
     (case find_f_loop cn nl xs f idxs of
        Inl e \<Rightarrow> Inl e
      | Inr (f', idxs') \<Rightarrow> find_f_loop cn nl ys f' idxs')"
  by (induction xs arbitrary: f idxs) (auto simp: Let_def split: option.splits)

lemma find_f_loop_mono:
  "find_f_loop cn nl sel f idxs = Inr (f', idxs') \<Longrightarrow> set idxs \<subseteq> set idxs'"
proof (induction sel arbitrary: f idxs)
  case Nil
  then show ?case by simp
next
  case (Cons name rest)
  then show ?case
    by (fastforce simp: Let_def split: option.splits if_splits)
qed

lemma find_f_loop_length:
  "find_f_loop cn nl sel f idxs = Inr (f', idxs') \<Longrightarrow> length f' = length f"
proof (induction sel arbitrary: f idxs)
  case Nil
  then show ?case by simp
next
  case (Cons name rest)
  then show ?case
    by (fastforce simp: Let_def split: option.splits if_splits)
qed

lemma find_f_loop_idxs:
  "find_f_loop cn nl sel f idxs = Inr (f', idxs') \<Longrightarrow>
   idxs' = idxs @ first_occurrences
     (filter (\<lambda>i. i \<notin> set idxs) (map (\<lambda>n. the (index_of nl (lower n))) sel))"
proof (induction sel arbitrary: f idxs)
  case Nil
  then show ?case by simp
next
  case (Cons name rest)
  then obtain i where i: "index_of nl (lower name) = Some i"
    by (auto simp: Let_def split: option.splits)
  show ?case
  proof (cases "i \<in> set idxs")
    case True
    with Cons i show ?thesis by simp
  next
    case False
    with Cons.prems i have "find_f_loop cn nl rest (f[i := 1]) (idxs @ [i]) = Inr (f', idxs')"
      by simp
    from Cons.IH [OF this] have
      "idxs' = (idxs @ [i]) @ first_occurrences
         (filter (\<lambda>j. j \<notin> set (idxs @ [i])) (map (\<lambda>n. the (index_of nl (lower n))) rest))" .
    moreover have "filter (\<lambda>j. j \<notin> set (idxs @ [i])) xs = removeAll i (filter (\<lambda>j. j \<notin> set idxs) xs)"
      for xs :: "nat list"
      by (induction xs) auto
    ultimately show ?thesis using False i by simp
  qed
qed

lemma find_f_loop_f:
  "find_f_loop cn nl sel f idxs = Inr (f', idxs') \<Longrightarrow> length f = length nl \<Longrightarrow> k < length f \<Longrightarrow>
   f' ! k = (if k \<in> set idxs' \<and> k \<notin> set idxs then 1 else f ! k)"
proof (induction sel arbitrary: f idxs)
  case Nil
  then show ?case by simp
next
  case (Cons name rest)
  then obtain i where i: "index_of nl (lower name) = Some i"
    by (auto simp: Let_def split: option.splits)
  then have il: "i < length f" using Cons.prems(2) by (simp add: index_of_Some_iff)
  show ?case
  proof (cases "i \<in> set idxs")
    case True
    with Cons i show ?thesis by simp
  next
    case False
    with Cons.prems i have run: "find_f_loop cn nl rest (f[i := 1]) (idxs @ [i]) = Inr (f', idxs')"
      by simp
    have "i \<in> set idxs'" using find_f_loop_mono [OF run] by auto
    with Cons.IH [OF run] Cons.prems(2,3) False il show ?thesis
      by (auto simp: nth_list_update)
  qed
qed

lemma index_of_absent: "y \<notin> set xs \<Longrightarrow> index_of xs y = None"
  by (simp add: index_of_None_iff)

lemma index_of_present: "y \<in> set xs \<Longrightarrow> \<exists>i. index_of xs y = Some i"
  using index_of_None_iff [of xs y] by (cases "index_of xs y") auto

lemma find_f_loop_Inl:
  "find (\<lambda>n. lower n \<notin> set nl) sel = Some n \<Longrightarrow>
   find_f_loop cn nl sel f idxs = Inl (not_in_component_names n cn)"
proof (induction sel arbitrary: f idxs)
  case Nil
  then show ?case by simp
next
  case (Cons name rest)
  show ?case
  proof (cases "lower name \<in> set nl")
    case True
    from index_of_present [OF this] obtain i where i: "index_of nl (lower name) = Some i" ..
    from Cons.prems True have r: "find (\<lambda>n. lower n \<notin> set nl) rest = Some n"
      by simp
    note IH = Cons.IH [OF r]
    show ?thesis
      by (simp add: i IH)
  next
    case False
    with Cons.prems have "name = n" by simp
    with False show ?thesis by (simp add: index_of_absent)
  qed
qed

lemma find_f_loop_Inr:
  "find (\<lambda>n. lower n \<notin> set nl) sel = None \<Longrightarrow>
   \<exists>f' idxs'. find_f_loop cn nl sel f idxs = Inr (f', idxs')"
proof (induction sel arbitrary: f idxs)
  case Nil
  then show ?case by simp
next
  case (Cons name rest)
  then have m: "lower name \<in> set nl" and r: "find (\<lambda>n. lower n \<notin> set nl) rest = None"
    by (simp_all split: if_splits)
  from index_of_present [OF m] obtain i where i: "index_of nl (lower name) = Some i" ..
  note IH = Cons.IH [OF r]
  show ?case
    by (simp add: i IH)
qed

lemma set_first_occurrences [simp]: "set (first_occurrences xs) = set xs"
  by (induction xs rule: first_occurrences.induct) auto

lemma distinct_first_occurrences [simp]: "distinct (first_occurrences xs)"
  by (induction xs rule: first_occurrences.induct) auto

lemma first_occurrences_map:
  "inj_on g (set xs) \<Longrightarrow> map g (first_occurrences xs) = first_occurrences (map g xs)"
proof (induction xs rule: first_occurrences.induct)
  case 1
  then show ?case by simp
next
  case (2 x xs)
  have inj: "inj_on g (set (removeAll x xs))"
    using "2.prems" by (auto intro: inj_on_subset)
  have "map g (removeAll x xs) = removeAll (g x) (map g xs)"
    using "2.prems" by (induction xs) (auto simp: inj_on_def)
  with "2.IH" [OF inj] show ?case by simp
qed

lemma index_of_nth: "index_of xs y = Some i \<Longrightarrow> i < length xs \<and> xs ! i = y"
  by (simp add: index_of_Some_iff)

lemma index_of_distinct: "distinct xs \<Longrightarrow> i < length xs \<Longrightarrow> index_of xs (xs ! i) = Some i"
  by (auto simp: index_of_Some_iff nth_eq_iff_index_eq)

text \<open>The result of a successful call, in full.\<close>

lemma find_f_from_names_Inr:
  assumes "find_f_from_names cn sel = Inr (f, idxs)"
  shows "length f = length cn"
    and "idxs = first_occurrences (map (\<lambda>n. the (index_of (map lower cn) (lower n))) (names_of sel))"
    and "k < length cn \<Longrightarrow> f ! k = (if k \<in> set idxs then 1 else 0)"
proof -
  from assms have run:
    "find_f_loop cn (map lower cn) (names_of sel) (replicate (length cn) 0) [] = Inr (f, idxs)"
    by (simp add: find_f_from_names_def)
  from find_f_loop_length [OF run] show "length f = length cn" by simp
  from find_f_loop_idxs [OF run]
  show "idxs = first_occurrences (map (\<lambda>n. the (index_of (map lower cn) (lower n))) (names_of sel))"
    by simp
  show "f ! k = (if k \<in> set idxs then 1 else 0)" if "k < length cn"
    using find_f_loop_f [OF run, of k] that by simp
qed

lemma find_f_from_names_Inl_iff:
  "find_f_from_names cn sel = Inl e \<longleftrightarrow>
     (\<exists>n. find (\<lambda>n. lower n \<notin> lower ` set cn) (names_of sel) = Some n \<and>
          e = not_in_component_names n cn)"
proof (cases "find (\<lambda>n. lower n \<notin> set (map lower cn)) (names_of sel)")
  case None
  from find_f_loop_Inr [OF this, of cn "replicate (length cn) 0" "[]"]
  obtain f' idxs' where "find_f_from_names cn sel = Inr (f', idxs')"
    by (auto simp: find_f_from_names_def)
  with None show ?thesis by simp
next
  case (Some n)
  from find_f_loop_Inl [OF this, of cn "replicate (length cn) 0" "[]"]
  have "find_f_from_names cn sel = Inl (not_in_component_names n cn)"
    by (simp add: find_f_from_names_def)
  with Some show ?thesis by auto
qed

subsection \<open>Unknown names\<close>

text \<open>
  Claim C7. \<^verbatim>\<open>find_f_from_names\<close> raises if and only if some selected name has no
  case-insensitive match among the component names. The exception is the
  \<^verbatim>\<open>ValueError\<close> built from the first selected name without a match, as it was
  written by the caller, and from the whole list of component names. When every
  selected name has a match, nothing is raised.
\<close>

theorem find_f_from_names_raises:
  "((\<exists>e. find_f_from_names component_names selected = Inl e) \<longleftrightarrow>
      (\<exists>name \<in> set (names_of selected). lower name \<notin> lower ` set component_names)) \<and>
   (find_f_from_names component_names selected = Inl e \<longleftrightarrow>
      (\<exists>name. find (\<lambda>n. lower n \<notin> lower ` set component_names) (names_of selected) = Some name \<and>
         e = ValueError [Text name, Text '' not in component_names='', Listing component_names]))"
proof -
  have "(\<exists>e. find_f_from_names component_names selected = Inl e) \<longleftrightarrow>
        find (\<lambda>n. lower n \<notin> lower ` set component_names) (names_of selected) \<noteq> None"
    by (auto simp: find_f_from_names_Inl_iff)
  also have "\<dots> \<longleftrightarrow>
        (\<exists>name \<in> set (names_of selected). lower name \<notin> lower ` set component_names)"
    by (auto simp: find_None_iff)
  finally show ?thesis
    by (simp add: find_f_from_names_Inl_iff not_in_component_names_def)
qed

subsection \<open>Selecting a name twice\<close>

text \<open>
  Claim C9. A selection that lists a name a second time gives the same outcome
  (the same vector \<open>f\<close> and the same index list, or the same exception) as the
  selection with the second mention removed, whatever stands before, between and
  after the two; in particular the name listed twice gives what the name alone gives.
\<close>

theorem find_f_from_names_twice:
  "find_f_from_names component_names (Many (xs @ name # ys @ name # zs)) =
     find_f_from_names component_names (Many (xs @ name # ys @ zs)) \<and>
   find_f_from_names component_names (Many [name, name]) =
     find_f_from_names component_names (Single name)"
proof -
  define cn where "cn = component_names"
  define nl where "nl = map lower cn"
  have step: "find_f_loop cn nl (name # ys @ name # zs) f idxs =
              find_f_loop cn nl (name # ys @ zs) f idxs" for f idxs ys zs
  proof (cases "index_of nl (lower name)")
    case None
    then show ?thesis by simp
  next
    case (Some i)
    have seen: "find_f_loop cn nl (ys @ name # zs) g js = find_f_loop cn nl (ys @ zs) g js"
      if "i \<in> set js" for g js
    proof (cases "find_f_loop cn nl ys g js")
      case (Inl e)
      then show ?thesis by (simp add: find_f_loop_append)
    next
      case (Inr r)
      obtain g' js' where r: "r = (g', js')" by (cases r)
      with Inr find_f_loop_mono [of cn nl ys g js g' js'] that have "i \<in> set js'"
        by auto
      with Inr r Some show ?thesis
        by (simp add: find_f_loop_append)
    qed
    show ?thesis
    proof (cases "i \<in> set idxs")
      case True
      with Some seen [OF True] show ?thesis by simp
    next
      case False
      have "i \<in> set (idxs @ [i])" by simp
      from seen [OF this] Some False show ?thesis by simp
    qed
  qed
  have "find_f_loop cn nl (xs @ name # ys @ name # zs) f idxs =
        find_f_loop cn nl (xs @ name # ys @ zs) f idxs" for f idxs
    using step by (simp add: find_f_loop_append split: sum.splits)
  moreover have "find_f_loop cn nl [name, name] f idxs = find_f_loop cn nl [name] f idxs" for f idxs
    using step [of "[]" "[]"] by simp
  ultimately show ?thesis
    by (simp add: find_f_from_names_def names_of_def cn_def nl_def)
qed

lemma sum_list_indicator:
  "sum_list (map (\<lambda>k. if k \<in> S then 1 else 0) [0..<n]) = real (card (S \<inter> {0..<n}))"
proof -
  have "sum_list (map (\<lambda>k. if k \<in> S then 1 else (0::real)) [0..<n]) =
        (\<Sum>k\<in>{0..<n}. if k \<in> S then 1 else 0)"
    by (simp add: interv_sum_list_conv_sum_set_nat)
  also have "\<dots> = real (card ({0..<n} \<inter> S))"
    by (simp add: sum.If_cases)
  finally show ?thesis by (simp add: Int_commute)
qed

lemma index_of_map_Some:
  assumes "index_of (map h xs) y = Some i"
  shows "i < length xs" and "h (xs ! i) = y" and "\<forall>k<i. h (xs ! k) \<noteq> y"
proof -
  from assms have i: "i < length xs" and at: "map h xs ! i = y"
    and before: "\<forall>k<i. map h xs ! k \<noteq> y"
    by (simp_all add: index_of_Some_iff del: nth_map)
  show "i < length xs" by (rule i)
  from at i show "h (xs ! i) = y" by simp
  show "\<forall>k<i. h (xs ! k) \<noteq> y"
  proof (intro allI impI)
    fix k assume "k < i"
    with before i have "map h xs ! k \<noteq> y" "k < length xs" by auto
    then show "h (xs ! k) \<noteq> y" by simp
  qed
qed

lemma find_Some_ex: "(\<exists>x. find P xs = Some x) \<longleftrightarrow> (\<exists>x\<in>set xs. P x)"
  by (induction xs) auto

lemma find_f_from_names_Inl_ex:
  "(\<exists>e. find_f_from_names cn sel = Inl e) \<longleftrightarrow>
   (\<exists>n\<in>set (names_of sel). lower n \<notin> lower ` set cn)"
  by (simp add: find_f_from_names_Inl_iff find_Some_ex)

lemma find_f_from_names_sum:
  assumes run: "find_f_from_names cn sel = Inr (f, idxs)"
  shows "sum_list f = real (card (lower ` set (names_of sel)))"
    and "set idxs = (\<lambda>n. the (index_of (map lower cn) (lower n))) ` set (names_of sel)"
    and "set idxs \<subseteq> {0..<length cn}"
    and "\<forall>n\<in>set (names_of sel). lower n \<in> lower ` set cn"
proof -
  let ?nl = "map lower cn"
  let ?g = "\<lambda>k. the (index_of ?nl k)"
  have found: "lower n \<in> lower ` set cn" if "n \<in> set (names_of sel)" for n
  proof (rule ccontr)
    assume "lower n \<notin> lower ` set cn"
    with that have "\<exists>e. find_f_from_names cn sel = Inl e"
      unfolding find_f_from_names_Inl_ex by auto
    with run show False by simp
  qed
  then show "\<forall>n\<in>set (names_of sel). lower n \<in> lower ` set cn" by blast
  have idxs: "set idxs = (\<lambda>n. ?g (lower n)) ` set (names_of sel)"
    using find_f_from_names_Inr(2) [OF run] by simp
  then show "set idxs = (\<lambda>n. the (index_of (map lower cn) (lower n))) ` set (names_of sel)" .
  have g: "?g k < length cn \<and> ?nl ! ?g k = k" if "k \<in> lower ` set cn" for k
  proof -
    from that have "k \<in> set ?nl" by simp
    from index_of_present [OF this] obtain i where "index_of ?nl k = Some i" ..
    with index_of_nth [OF this] show ?thesis by simp
  qed
  show sub: "set idxs \<subseteq> {0..<length cn}"
    using idxs found g by auto
  have inj: "inj_on ?g (lower ` set (names_of sel))"
  proof (rule inj_onI)
    fix a b
    assume "a \<in> lower ` set (names_of sel)" "b \<in> lower ` set (names_of sel)" "?g a = ?g b"
    with found g [of a] g [of b] show "a = b" by (metis imageE)
  qed
  have "f = map (\<lambda>k. if k \<in> set idxs then 1 else 0) [0..<length cn]"
    using find_f_from_names_Inr(1,3) [OF run] by (intro nth_equalityI) auto
  then have "sum_list f = real (card (set idxs \<inter> {0..<length cn}))"
    using sum_list_indicator [of "set idxs" "length cn"] by simp
  also have "set idxs \<inter> {0..<length cn} = set idxs" using sub by blast
  also have "set idxs = ?g ` (lower ` set (names_of sel))"
    using idxs by (simp add: image_image)
  also have "card \<dots> = card (lower ` set (names_of sel))"
    by (rule card_image [OF inj])
  finally show "sum_list f = real (card (lower ` set (names_of sel)))" .
qed


lemmas lower_eval = lower_def lower_char_def upper_to_lower_def

lemma lower_names:
  "lower ''cmb'' = ''cmb''" "lower ''tsz'' = ''tsz''" "lower ''sync'' = ''sync''"
  "lower ''CMB'' = ''cmb''" "lower ''Cmb'' = ''cmb''" "lower ''SYNC'' = ''sync''"
  "lower ''Sync'' = ''sync''" "lower ''dust'' = ''dust''"
  by (simp_all add: lower_eval)

lemmas find_f_eval = find_f_from_names_def names_of_def not_in_component_names_def lower_names

subsection \<open>The indicator vector\<close>

text \<open>
  Claim C1, as amended. Let the component names be unique up to letter case and let
  every selected name occur among them up to letter case. Then the call returns;
  \<open>f\<close> has one entry per component name; the entry is 1 where the component name
  matches a selected name up to letter case and 0 elsewhere; the entries of \<open>f\<close> sum
  to the number of selected names that are distinct up to letter case; and the index
  list holds column indices whose names, lower-cased, are the selected names,
  lower-cased, each once and in the order of first selection.
\<close>

theorem find_f_from_names_indicator:
  assumes uniq: "distinct (map lower component_names)"
    and present: "\<forall>name\<in>set (names_of selected). lower name \<in> lower ` set component_names"
  shows "\<exists>f idxs. find_f_from_names component_names selected = Inr (f, idxs) \<and>
     length f = length component_names \<and>
     (\<forall>i<length component_names.
        f ! i = (if lower (component_names ! i) \<in> lower ` set (names_of selected) then 1 else 0)) \<and>
     sum_list f = real (card (lower ` set (names_of selected))) \<and>
     (\<forall>i\<in>set idxs. i < length component_names) \<and>
     map (\<lambda>i. lower (component_names ! i)) idxs = first_occurrences (map lower (names_of selected))"
proof -
  define cn where "cn = component_names"
  define names where "names = names_of selected"
  let ?nl = "map lower cn"
  let ?g = "\<lambda>k. the (index_of ?nl k)"
  have "\<not> (\<exists>e. find_f_from_names cn selected = Inl e)"
    unfolding find_f_from_names_Inl_ex using present by (simp add: cn_def)
  then obtain f idxs where run: "find_f_from_names cn selected = Inr (f, idxs)"
    by (cases "find_f_from_names cn selected") auto
  note R = find_f_from_names_Inr [OF run] and S = find_f_from_names_sum [OF run]
  have g: "?g k < length cn \<and> lower (cn ! ?g k) = k" if "k \<in> lower ` set cn" for k
  proof -
    from that have "k \<in> set ?nl" by simp
    from index_of_present [OF this] obtain i where "index_of ?nl k = Some i" ..
    with index_of_nth [OF this] show ?thesis by auto
  qed
  have mem: "k \<in> set idxs \<longleftrightarrow> lower (cn ! k) \<in> lower ` set names" if k: "k < length cn" for k
  proof
    assume "k \<in> set idxs"
    then obtain n where n: "n \<in> set names" and "k = ?g (lower n)"
      using S(2) by (auto simp: names_def)
    moreover from n present have "lower n \<in> lower ` set cn" by (simp add: names_def cn_def)
    ultimately have "lower (cn ! k) = lower n" using g by simp
    with n show "lower (cn ! k) \<in> lower ` set names" by auto
  next
    assume "lower (cn ! k) \<in> lower ` set names"
    then obtain n where n: "n \<in> set names" and eq: "lower (cn ! k) = lower n" by auto
    from index_of_distinct [of ?nl k] uniq k have "index_of ?nl (lower (cn ! k)) = Some k"
      by (simp add: cn_def)
    with eq have "?g (lower n) = k" by simp
    with n show "k \<in> set idxs" using S(2) by (auto simp: names_def)
  qed
  have inj: "inj_on ?g (set (map lower names))"
  proof (rule inj_onI)
    fix a b
    assume "a \<in> set (map lower names)" "b \<in> set (map lower names)" "?g a = ?g b"
    moreover from this present have "a \<in> lower ` set cn" "b \<in> lower ` set cn"
      by (auto simp: names_def cn_def)
    ultimately show "a = b" using g [of a] g [of b] by metis
  qed
  have "idxs = first_occurrences (map ?g (map lower names))"
    using R(2) by (simp add: names_def o_def)
  also have "\<dots> = map ?g (first_occurrences (map lower names))"
    by (rule first_occurrences_map [OF inj, symmetric])
  finally have "map (\<lambda>i. lower (cn ! i)) idxs =
      map (\<lambda>k. lower (cn ! ?g k)) (first_occurrences (map lower names))"
    by (simp add: o_def)
  also have "\<dots> = map (\<lambda>k. k) (first_occurrences (map lower names))"
  proof (rule map_cong [OF refl])
    fix k assume "k \<in> set (first_occurrences (map lower names))"
    with present have "k \<in> lower ` set cn" by (auto simp: names_def cn_def)
    from g [OF this] show "lower (cn ! ?g k) = k" by simp
  qed
  finally have order: "map (\<lambda>i. lower (cn ! i)) idxs = first_occurrences (map lower names)"
    by simp
  have "\<forall>i<length cn. f ! i = (if lower (cn ! i) \<in> lower ` set names then 1 else 0)"
    using R(3) mem by simp
  moreover have "\<forall>i\<in>set idxs. i < length cn" using S(3) by auto
  ultimately show ?thesis
    using run R(1) S(1) order unfolding cn_def names_def by blast
qed

theorem find_f_from_names_indicator_witness:
  "\<exists>f idxs. find_f_from_names [''tsz'', ''cmb'', ''sync''] (Many [''SYNC'', ''tsz'', ''Sync'']) = Inr (f, idxs) \<and>
     f = [1, 0, 1] \<and> sum_list f = 2 \<and> idxs = [2, 0] \<and>
     map (\<lambda>i. lower ([''tsz'', ''cmb'', ''sync''] ! i)) idxs = [''sync'', ''tsz'']"
proof -
  have "distinct (map lower [''tsz'', ''cmb'', ''sync''])"
    by (simp add: lower_names)
  moreover have "\<forall>name\<in>set (names_of (Many [''SYNC'', ''tsz'', ''Sync''])).
      lower name \<in> lower ` set [''tsz'', ''cmb'', ''sync'']"
    by (simp add: names_of_def lower_names)
  ultimately show ?thesis
    using find_f_from_names_indicator [of "[''tsz'', ''cmb'', ''sync'']" "Many [''SYNC'', ''tsz'', ''Sync'']"]
    by (simp add: find_f_eval)
qed

text \<open>
  Counted as written, the selected names \<^verbatim>\<open>"cmb"\<close> and \<^verbatim>\<open>"CMB"\<close> are two distinct
  names; both match the one column, and \<open>f\<close> sums to 1.
\<close>

theorem find_f_from_names_sum_counterexample:
  "distinct (map lower [''cmb'']) \<and>
   lower ''cmb'' \<in> lower ` set [''cmb''] \<and> lower ''CMB'' \<in> lower ` set [''cmb''] \<and>
   find_f_from_names [''cmb''] (Many [''cmb'', ''CMB'']) = Inr ([1], [0]) \<and>
   sum_list [1 :: real] \<noteq> real (card (set [''cmb'', ''CMB'']))"
  by (simp add: find_f_eval)

subsection \<open>Component names that repeat\<close>

text \<open>
  Claim C10. Whatever the component names are, after a successful call the index list
  has no repeated index; a position whose name occurs, up to letter case, at an
  earlier position has entry 0 and is not in the index list; and every selected name
  has a first position among the component names, whose entry is 1 and which is in
  the index list.
\<close>

theorem find_f_from_names_duplicate_columns:
  assumes run: "find_f_from_names component_names selected = Inr (f, idxs)"
  shows "distinct idxs \<and>
    (\<forall>j<length component_names.
       (\<exists>i<j. lower (component_names ! i) = lower (component_names ! j)) \<longrightarrow>
       f ! j = 0 \<and> j \<notin> set idxs) \<and>
    (\<forall>name\<in>set (names_of selected). \<exists>i<length component_names.
       lower (component_names ! i) = lower name \<and>
       (\<forall>k<i. lower (component_names ! k) \<noteq> lower name) \<and>
       f ! i = 1 \<and> i \<in> set idxs)"
proof -
  define cn where "cn = component_names"
  let ?nl = "map lower cn"
  note run' = run [folded cn_def]
  note R = find_f_from_names_Inr [OF run'] and S = find_f_from_names_sum [OF run']
  have first: "\<exists>i. index_of ?nl (lower n) = Some i \<and> i \<in> set idxs"
    if "n \<in> set (names_of selected)" for n
  proof -
    from that S(4) have "lower n \<in> set ?nl" by auto
    from index_of_present [OF this] obtain i where "index_of ?nl (lower n) = Some i" ..
    with that S(2) show ?thesis by force
  qed
  have idx: "\<exists>n\<in>set (names_of selected). index_of ?nl (lower n) = Some k" if "k \<in> set idxs" for k
  proof -
    from that S(2) obtain n where n: "n \<in> set (names_of selected)"
      and k: "k = the (index_of ?nl (lower n))" by auto
    from first [OF n] k show ?thesis using n by auto
  qed
  have "distinct idxs" using R(2) by simp
  moreover have "f ! j = 0 \<and> j \<notin> set idxs"
    if j: "j < length cn" and dup: "\<exists>i<j. lower (cn ! i) = lower (cn ! j)" for j
  proof -
    have "j \<notin> set idxs"
    proof
      assume "j \<in> set idxs"
      from idx [OF this] obtain n where "index_of ?nl (lower n) = Some j" by auto
      from index_of_map_Some(2,3) [OF this] dup show False by auto
    qed
    with R(3) [OF j] show ?thesis by simp
  qed
  moreover have "\<exists>i<length cn. lower (cn ! i) = lower n \<and>
       (\<forall>k<i. lower (cn ! k) \<noteq> lower n) \<and> f ! i = 1 \<and> i \<in> set idxs"
    if "n \<in> set (names_of selected)" for n
  proof -
    from first [OF that] obtain i where i: "index_of ?nl (lower n) = Some i" "i \<in> set idxs"
      by auto
    from index_of_map_Some [OF i(1)] R(3) [of i] i(2) show ?thesis by auto
  qed
  ultimately show ?thesis unfolding cn_def by blast
qed

theorem find_f_from_names_duplicate_columns_witness:
  "find_f_from_names [''cmb'', ''tsz'', ''CMB'', ''Cmb''] (Many [''Cmb'', ''cmb'']) =
     Inr ([1, 0, 0, 0], [0]) \<and>
   distinct [0 :: nat] \<and> [1, 0, 0, 0 :: real] ! 2 = 0 \<and> [1, 0, 0, 0 :: real] ! 3 = 0 \<and>
   2 \<notin> set [0 :: nat] \<and> 3 \<notin> set [0 :: nat]"
proof -
  have run: "find_f_from_names [''cmb'', ''tsz'', ''CMB'', ''Cmb''] (Many [''Cmb'', ''cmb'']) =
     Inr ([1, 0, 0, 0], [0])"
    by (simp add: find_f_eval)
  from find_f_from_names_duplicate_columns [OF run] run show ?thesis
    by simp
qed

subsection \<open>Dictionaries, comprehensions, column\_stack\<close>

lemma map_of_dict_set: "map_of (dict_set d key v) = (map_of d)(key \<mapsto> v)"
  by (induction d) (auto simp: fun_eq_iff)

lemma getitem_dict_set:
  "getitem (dict_set d key v) c = (if c = key then Inr v else getitem d c)"
  by (simp add: getitem_def map_of_dict_set)

lemma comprehension_Inr:
  "comprehension g xs = Inr ys \<longleftrightarrow> map g xs = map Inr ys"
proof (induction xs arbitrary: ys)
  case Nil
  then show ?case by auto
next
  case (Cons a xs)
  show ?case
  proof (cases "g a")
    case (Inl e)
    then show ?thesis by (cases ys) auto
  next
    case (Inr b)
    show ?thesis
    proof (cases "comprehension g xs")
      case (Inl e)
      with Cons.IH Inr show ?thesis by (cases ys) auto
    next
      case Inr': (Inr bs)
      with Cons.IH [of bs] Cons.IH Inr show ?thesis by (cases ys) auto
    qed
  qed
qed

lemma comprehension_total:
  "(\<And>a. a \<in> set xs \<Longrightarrow> g a = Inr (G a)) \<Longrightarrow> comprehension g xs = Inr (map G xs)"
  by (simp add: comprehension_Inr)

lemma dict_comprehension_total:
  "(\<And>c. c \<in> set cs \<Longrightarrow> g c = Inr (G c)) \<Longrightarrow>
   \<exists>rv. dict_comprehension g cs d = Inr rv \<and>
        (\<forall>c. getitem rv c = (if c \<in> set cs then Inr (G c) else getitem d c))"
proof (induction cs arbitrary: d)
  case Nil
  then show ?case by simp
next
  case (Cons a cs)
  have a: "g a = Inr (G a)" using Cons.prems by simp
  have "\<exists>rv. dict_comprehension g cs (dict_set d a (G a)) = Inr rv \<and>
        (\<forall>c. getitem rv c = (if c \<in> set cs then Inr (G c) else getitem (dict_set d a (G a)) c))"
    by (rule Cons.IH) (simp add: Cons.prems)
  then show ?case
    by (auto simp: a getitem_dict_set)
qed

lemma column_stack_Inr:
  assumes "vs \<noteq> []" and "\<And>v. v \<in> set vs \<Longrightarrow> length v = n"
  shows "\<exists>F. column_stack vs = Inr F \<and> shape F = (n, length vs) \<and>
             length (rows F) = n \<and> (\<forall>r\<in>set (rows F). length r = length vs) \<and>
             (\<forall>j<length vs. column F j = vs ! j) \<and>
             (\<forall>i<n. \<forall>j<length vs. rows F ! i ! j = vs ! j ! i)"
proof -
  from assms(1) obtain v ws where vs: "vs = v # ws" by (cases vs) auto
  with assms(2) have len: "length v = n" "list_all (\<lambda>w. length w = length v) ws"
    by (auto simp: list_all_iff)
  define F where "F = \<lparr>shape = (n, length vs), rows = map (\<lambda>i. map (\<lambda>w. w ! i) vs) [0..<n]\<rparr>"
  have stack: "column_stack vs = Inr F"
    using len by (simp add: column_stack_def vs F_def)
  have col: "column F j = vs ! j" if "j < length vs" for j
  proof -
    have "length (vs ! j) = n" using assms(2) that by simp
    then have "map (\<lambda>i. vs ! j ! i) [0..<n] = vs ! j"
      using map_nth [of "vs ! j"] by simp
    with that show ?thesis
      by (simp add: column_def F_def o_def)
  qed
  show ?thesis
    using stack col by (auto simp: F_def)
qed

subsection \<open>The theory builder\<close>

lemma zeros2_simps [simp]:
  "shape (zeros2 n m) = (n, m)" "rows (zeros2 n m) = replicate n (replicate m 0)"
  by (simp_all add: zeros2_def)

lemma keys_theory_vecs: "keys (theory_vecs beta_s nu0 nu) = [''cmb'', ''tsz'', ''sync'']"
  by (simp add: theory_vecs_def keys_def)

lemma getitem_theory_vecs:
  "c \<in> {''cmb'', ''tsz'', ''sync''} \<Longrightarrow>
   getitem (theory_vecs beta_s nu0 nu) c = Inr (map (response beta_s nu0 c) nu)"
  by (auto simp: getitem_def theory_vecs_def response_def)

lemma stack_columns_run:
  assumes look: "\<And>c. c \<in> set cols \<Longrightarrow> getitem rv c = Inr (G c)"
    and len: "\<And>c. c \<in> set cols \<Longrightarrow> length (G c) = n"
  shows "\<exists>F. stack_columns rv cols n = Inr F \<and>
           shape F = (n, length cols) \<and> length (rows F) = n \<and>
           (\<forall>r\<in>set (rows F). length r = length cols) \<and>
           (cols = [] \<longrightarrow> F = zeros2 n 0) \<and>
           (\<forall>j<length cols. column F j = G (cols ! j)) \<and>
           (\<forall>i<n. \<forall>j<length cols. rows F ! i ! j = G (cols ! j) ! i)"
proof (cases "cols = []")
  case True
  then show ?thesis by (simp add: stack_columns_def)
next
  case False
  have columns: "comprehension (getitem rv) cols = Inr (map G cols)"
    by (rule comprehension_total) (rule look)
  have ne: "map G cols \<noteq> []" using False by simp
  have "\<And>v. v \<in> set (map G cols) \<Longrightarrow> length v = n"
    using len by auto
  from column_stack_Inr [OF ne this]
  obtain F where F: "column_stack (map G cols) = Inr F"
    and sh: "shape F = (n, length (map G cols))" "length (rows F) = n"
      "\<forall>r\<in>set (rows F). length r = length (map G cols)"
    and col: "\<forall>j<length (map G cols). column F j = map G cols ! j"
    and ent: "\<forall>i<n. \<forall>j<length (map G cols). rows F ! i ! j = map G cols ! j ! i"
    by blast
  have "stack_columns rv cols n = Inr F"
    using False columns F by (simp add: stack_columns_def)
  moreover have "\<forall>j<length cols. column F j = G (cols ! j)"
    using col by simp
  moreover have "\<forall>i<n. \<forall>j<length cols. rows F ! i ! j = G (cols ! j) ! i"
    using ent by simp
  ultimately show ?thesis
    using sh False by simp
qed

lemma build_F_theory_run:
  fixes frequencies components_order beta_s nu0
  defines "tags \<equiv> (case frequencies of None \<Rightarrow> default_frequencies | Some fs \<Rightarrow> fs)"
  defines "cols \<equiv> (case components_order of
                      None \<Rightarrow> [''cmb'', ''tsz'', ''sync'']
                    | Some order \<Rightarrow> filter (\<lambda>c. c \<in> {''cmb'', ''tsz'', ''sync''}) (map lower order))"
  assumes parse: "comprehension (to_float float_of) tags = Inr values"
  shows "\<exists>F rv. build_F_theory float_of beta_s nu0 frequencies components_order =
                   Inr (F, cols, rv, tags) \<and>
           shape F = (length tags, length cols) \<and>
           length (rows F) = length tags \<and>
           (\<forall>r\<in>set (rows F). length r = length cols) \<and>
           (cols = [] \<longrightarrow> F = zeros2 (length tags) 0) \<and>
           (\<forall>j<length cols.
              getitem rv (cols ! j) = Inr (column F j) \<and>
              column F j = map (\<lambda>v. response beta_s nu0 (cols ! j) (v * 10 ^ 9)) values)"
proof -
  let ?nu = "map (\<lambda>v. v * 10 ^ 9) values"
  let ?vecs = "theory_vecs beta_s nu0 ?nu"
  define G where "G = (\<lambda>c. map (response beta_s nu0 c) ?nu)"
  have len: "length values = length tags"
    using parse by (auto simp: comprehension_Inr dest: arg_cong [where f = length])
  have cols_eq: "(case components_order of
                    None \<Rightarrow> [''cmb'', ''tsz'', ''sync'']
                  | Some order \<Rightarrow> filter (\<lambda>c. c \<in> set (keys ?vecs)) (map lower order)) = cols"
    by (simp add: cols_def keys_theory_vecs split: option.splits)
  have supported: "c \<in> {''cmb'', ''tsz'', ''sync''}" if "c \<in> set cols" for c
    using that by (auto simp: cols_def split: option.splits)
  have vec: "getitem ?vecs c = Inr (G c)" if "c \<in> set cols" for c
    unfolding G_def by (rule getitem_theory_vecs [OF supported [OF that]])
  from dict_comprehension_total [of cols "getitem ?vecs" G "[]", OF vec]
  obtain rv where rv: "dict_comprehension (getitem ?vecs) cols [] = Inr rv"
    and look: "\<And>c. c \<in> set cols \<Longrightarrow> getitem rv c = Inr (G c)"
    by auto
  have "\<And>c. c \<in> set cols \<Longrightarrow> length (G c) = length ?nu"
    by (simp add: G_def)
  from stack_columns_run [of cols rv G "length ?nu", OF look this]
  obtain F where F: "stack_columns rv cols (length ?nu) = Inr F"
    and sh: "shape F = (length ?nu, length cols)" "length (rows F) = length ?nu"
      "\<forall>r\<in>set (rows F). length r = length cols" "cols = [] \<longrightarrow> F = zeros2 (length ?nu) 0"
    and col: "\<And>j. j < length cols \<Longrightarrow> column F j = G (cols ! j)"
    by blast
  have "build_F_theory float_of beta_s nu0 frequencies components_order = Inr (F, cols, rv, tags)"
    unfolding build_F_theory_def Let_def tags_def [symmetric] parse sum.case cols_eq rv F
    by (rule refl)
  moreover have "getitem rv (cols ! j) = Inr (column F j) \<and>
      column F j = map (\<lambda>v. response beta_s nu0 (cols ! j) (v * 10 ^ 9)) values"
    if "j < length cols" for j
    using that col [OF that] look [of "cols ! j"] by (simp add: G_def o_def)
  ultimately show ?thesis
    using sh len by auto
qed

lemma build_F_theory_Inr_parse:
  assumes "build_F_theory float_of beta_s nu0 frequencies components_order = Inr r"
  shows "\<exists>values. comprehension (to_float float_of)
           (case frequencies of None \<Rightarrow> default_frequencies | Some fs \<Rightarrow> fs) = Inr values"
  using assms unfolding build_F_theory_def
  by (cases "comprehension (to_float float_of)
           (case frequencies of None \<Rightarrow> default_frequencies | Some fs \<Rightarrow> fs)") (simp_all add: Let_def)

subsection \<open>The empirical builder\<close>

lemma foreign_Inl: "foreign r = Inl e \<Longrightarrow> \<exists>d. e = Foreign d"
  by (cases r) (auto simp: foreign_def)

lemma mean_map_Inl: "mean_map w path msk = Inl e \<Longrightarrow> \<exists>d. e = Foreign d"
  by (auto simp: mean_map_def Let_def foreign_def split: sum.splits option.splits if_splits)

lemma fill_v_Inl:
  "fill_v w base_dir tmpl realization msk i fs v = Inl e \<Longrightarrow> \<exists>d. e = Foreign d"
proof (induction fs arbitrary: i v)
  case Nil
  then show ?case by simp
next
  case (Cons f fs)
  then show ?case
    by (auto simp: Let_def foreign_def dest: mean_map_Inl split: sum.splits if_splits)
qed

lemma fill_v_Inr:
  assumes "fill_v w base_dir tmpl realization msk i fs v = Inr v'"
    and "i + length fs \<le> length v"
  shows "length v' = length v \<and> (\<forall>n<i. v' ! n = v ! n) \<and>
         (\<forall>n<length fs. loads w base_dir tmpl realization msk (fs ! n) \<and>
            nan_to_num (v' ! (i + n)) =
              (case format w tmpl (fs ! n) realization of
                 Inl d \<Rightarrow> 0
               | Inr name \<Rightarrow>
                   if path_exists w (path_join base_dir name)
                   then measured w base_dir tmpl realization msk (fs ! n)
                   else nan_to_num (v ! (i + n))))"
  using assms
proof (induction fs arbitrary: i v)
  case Nil
  then show ?case by simp
next
  case (Cons f fs)
  from Cons.prems(1) obtain name where name: "format w tmpl f realization = Inr name"
    by (auto simp: foreign_def split: sum.splits)
  let ?path = "path_join base_dir name"
  show ?case
  proof (cases "path_exists w ?path")
    case True
    with Cons.prems(1) name obtain m where m: "mean_map w ?path msk = Inr m"
      and run: "fill_v w base_dir tmpl realization msk (Suc i) fs (v[i := m]) = Inr v'"
      by (auto simp: foreign_def Let_def split: sum.splits)
    from Cons.prems(2) have "Suc i + length fs \<le> length (v[i := m])" by simp
    from Cons.IH [OF run this]
    have len: "length v' = length v" and keep: "\<forall>n<Suc i. v' ! n = v[i := m] ! n"
      and rest: "\<forall>n<length fs. loads w base_dir tmpl realization msk (fs ! n) \<and>
            nan_to_num (v' ! (Suc i + n)) =
              (case format w tmpl (fs ! n) realization of
                 Inl d \<Rightarrow> 0
               | Inr name \<Rightarrow>
                   if path_exists w (path_join base_dir name)
                   then measured w base_dir tmpl realization msk (fs ! n)
                   else nan_to_num (v[i := m] ! (Suc i + n)))"
      by simp_all
    from keep Cons.prems(2) have here: "v' ! i = m" and before: "\<forall>n<i. v' ! n = v ! n"
      by auto
    have "loads w base_dir tmpl realization msk ((f # fs) ! n) \<and>
            nan_to_num (v' ! (i + n)) =
              (case format w tmpl ((f # fs) ! n) realization of
                 Inl d \<Rightarrow> 0
               | Inr name \<Rightarrow>
                   if path_exists w (path_join base_dir name)
                   then measured w base_dir tmpl realization msk ((f # fs) ! n)
                   else nan_to_num (v ! (i + n)))"
      if "n < length (f # fs)" for n
    proof (cases n)
      case 0
      with name True m here show ?thesis by (simp add: loads_def measured_def)
    next
      case (Suc n')
      with that rest show ?thesis by (auto split: sum.splits)
    qed
    with len before show ?thesis by blast
  next
    case False
    with Cons.prems(1) name
    have run: "fill_v w base_dir tmpl realization msk (Suc i) fs v = Inr v'"
      by (auto simp: foreign_def Let_def split: sum.splits)
    from Cons.prems(2) have "Suc i + length fs \<le> length v" by simp
    from Cons.IH [OF run this]
    have len: "length v' = length v" and keep: "\<forall>n<Suc i. v' ! n = v ! n"
      and rest: "\<forall>n<length fs. loads w base_dir tmpl realization msk (fs ! n) \<and>
            nan_to_num (v' ! (Suc i + n)) =
              (case format w tmpl (fs ! n) realization of
                 Inl d \<Rightarrow> 0
               | Inr name \<Rightarrow>
                   if path_exists w (path_join base_dir name)
                   then measured w base_dir tmpl realization msk (fs ! n)
                   else nan_to_num (v ! (Suc i + n)))"
      by simp_all
    have "loads w base_dir tmpl realization msk ((f # fs) ! n) \<and>
            nan_to_num (v' ! (i + n)) =
              (case format w tmpl ((f # fs) ! n) realization of
                 Inl d \<Rightarrow> 0
               | Inr name \<Rightarrow>
                   if path_exists w (path_join base_dir name)
                   then measured w base_dir tmpl realization msk ((f # fs) ! n)
                   else nan_to_num (v ! (i + n)))"
      if "n < length (f # fs)" for n
    proof (cases n)
      case 0
      with name False keep show ?thesis by (simp add: loads_def)
    next
      case (Suc n')
      with that rest show ?thesis by (auto split: sum.splits)
    qed
    with len keep show ?thesis by auto
  qed
qed

lemma fill_v_zeros:
  assumes "fill_v w base_dir tmpl realization msk 0 fs (replicate (length fs) (Fin 0)) = Inr v'"
  shows "map nan_to_num v' = map (measured w base_dir tmpl realization msk) fs"
    and "\<forall>f\<in>set fs. loads w base_dir tmpl realization msk f"
proof -
  from fill_v_Inr [OF assms]
  have len: "length v' = length fs"
    and at: "\<And>n. n < length fs \<Longrightarrow> loads w base_dir tmpl realization msk (fs ! n) \<and>
        nan_to_num (v' ! n) =
          (case format w tmpl (fs ! n) realization of
             Inl d \<Rightarrow> 0
           | Inr name \<Rightarrow>
               if path_exists w (path_join base_dir name)
               then measured w base_dir tmpl realization msk (fs ! n)
               else 0)"
    by (auto split: sum.splits)
  show "map nan_to_num v' = map (measured w base_dir tmpl realization msk) fs"
  proof (rule nth_equalityI)
    show "length (map nan_to_num v') = length (map (measured w base_dir tmpl realization msk) fs)"
      using len by simp
  next
    fix n assume "n < length (map nan_to_num v')"
    with len have n: "n < length fs" by simp
    from at [OF n] n len
    show "map nan_to_num v' ! n = map (measured w base_dir tmpl realization msk) fs ! n"
      by (auto simp: measured_def split: sum.splits)
  qed
  show "\<forall>f\<in>set fs. loads w base_dir tmpl realization msk f"
    using at by (auto simp: in_set_conv_nth)
qed

lemma fill_v_loads:
  assumes "\<And>f. f \<in> set fs \<Longrightarrow> loads w base_dir tmpl realization msk f"
  shows "\<exists>v'. fill_v w base_dir tmpl realization msk i fs v = Inr v'"
  using assms
proof (induction fs arbitrary: i v)
  case Nil
  then show ?case by simp
next
  case (Cons f fs)
  have "loads w base_dir tmpl realization msk f" using Cons.prems by simp
  moreover have "\<exists>v'. fill_v w base_dir tmpl realization msk (Suc i) fs u = Inr v'" for u
    by (rule Cons.IH) (simp add: Cons.prems)
  ultimately show ?case
    by (auto simp: loads_def foreign_def Let_def split: sum.splits if_splits)
qed

lemma fill_reference_vectors_Inl:
  "fill_reference_vectors w base_dir ft fs realization msk cs rv = Inl e \<Longrightarrow> \<exists>d. e = Foreign d"
proof (induction cs arbitrary: rv)
  case Nil
  then show ?case by simp
next
  case (Cons c cs)
  then show ?case
    by (auto dest: fill_v_Inl split: option.splits sum.splits if_splits)
qed

lemma has_template_Some: "has_template ft c \<longleftrightarrow> (\<exists>tmpl. ft c = Some (Some tmpl))"
  by (auto simp: has_template_def split: option.splits)

lemma fill_reference_vectors_Inr:
  assumes "fill_reference_vectors w base_dir ft fs realization msk cs rv = Inr rv'"
    and "\<forall>c\<in>set cs. has_template ft c"
  shows "(\<forall>c. getitem rv' c =
            (if c \<in> set cs then Inr (empirical_vector w base_dir ft fs realization msk c)
             else getitem rv c)) \<and>
         (\<forall>c\<in>set cs. component_loads w base_dir ft fs realization msk c)"
  using assms
proof (induction cs arbitrary: rv)
  case Nil
  then show ?case by simp
next
  case (Cons a cs)
  from Cons.prems(2) obtain tmpl where tmpl: "ft a = Some (Some tmpl)"
    by (auto simp: has_template_Some)
  with Cons.prems(1) obtain v where
    v: "fill_v w base_dir tmpl realization msk 0 fs (replicate (length fs) (Fin 0)) = Inr v"
    and run: "fill_reference_vectors w base_dir ft fs realization msk cs
                (dict_set rv a (map nan_to_num v)) = Inr rv'"
    by (auto split: sum.splits)
  from fill_v_zeros [OF v] tmpl
  have vec: "map nan_to_num v = empirical_vector w base_dir ft fs realization msk a"
    and ok: "component_loads w base_dir ft fs realization msk a"
    by (simp_all add: empirical_vector_def component_loads_def list_all_iff)
  from Cons.prems(2) have "\<forall>c\<in>set cs. has_template ft c" by simp
  from Cons.IH [OF run this] vec ok show ?case
    by (auto simp: getitem_dict_set)
qed

lemma fill_reference_vectors_loads:
  assumes "\<And>c. c \<in> set cs \<Longrightarrow> component_loads w base_dir ft fs realization msk c"
  shows "\<exists>rv'. fill_reference_vectors w base_dir ft fs realization msk cs rv = Inr rv'"
  using assms
proof (induction cs arbitrary: rv)
  case Nil
  then show ?case by simp
next
  case (Cons a cs)
  from Cons.prems [of a] obtain tmpl where tmpl: "ft a = Some (Some tmpl)"
    and ok: "\<And>f. f \<in> set fs \<Longrightarrow> loads w base_dir tmpl realization msk f"
    by (auto simp: component_loads_def list_all_iff split: option.splits)
  from fill_v_loads [of fs w base_dir tmpl realization msk 0 "replicate (length fs) (Fin 0)", OF ok]
  obtain v where v: "fill_v w base_dir tmpl realization msk 0 fs (replicate (length fs) (Fin 0)) = Inr v"
    by auto
  have "\<exists>rv'. fill_reference_vectors w base_dir ft fs realization msk cs
                (dict_set rv a (map nan_to_num v)) = Inr rv'"
    by (rule Cons.IH) (simp add: Cons.prems)
  with tmpl v show ?case by simp
qed

lemma length_empirical_vector:
  "has_template ft c \<Longrightarrow> length (empirical_vector w base_dir ft fs realization msk c) = length fs"
  by (auto simp: has_template_def empirical_vector_def split: option.splits)

lemma build_F_empirical_unfold:
  "build_F_empirical w base_dir ft fs realization mask_path components_order =
     (case read_mask w mask_path of
        Inl e \<Rightarrow> Inl e
      | Inr msk \<Rightarrow>
          if empirical_F_cols ft components_order = [] then Inl no_valid_components
          else (case fill_reference_vectors w base_dir ft fs realization msk
                       (empirical_F_cols ft components_order) [] of
                  Inl e \<Rightarrow> Inl e
                | Inr rv \<Rightarrow>
                    (case stack_columns rv (empirical_F_cols ft components_order) (length fs) of
                       Inl e \<Rightarrow> Inl e
                     | Inr F \<Rightarrow> Inr (F, empirical_F_cols ft components_order, rv, fs))))"
  unfolding build_F_empirical_def read_mask_def empirical_F_cols_def Let_def
  by (rule refl)

lemma build_F_empirical_body:
  assumes msk: "read_mask w mask_path = Inr msk"
    and cols: "empirical_F_cols ft components_order \<noteq> []"
    and rv: "fill_reference_vectors w base_dir ft fs realization msk
               (empirical_F_cols ft components_order) [] = Inr rv"
  shows "\<exists>F. build_F_empirical w base_dir ft fs realization mask_path components_order =
               Inr (F, empirical_F_cols ft components_order, rv, fs) \<and>
             shape F = (length fs, length (empirical_F_cols ft components_order)) \<and>
             length (rows F) = length fs \<and>
             (\<forall>r\<in>set (rows F). length r = length (empirical_F_cols ft components_order)) \<and>
             (\<forall>j<length (empirical_F_cols ft components_order).
                getitem rv (empirical_F_cols ft components_order ! j) = Inr (column F j) \<and>
                column F j = empirical_vector w base_dir ft fs realization msk
                               (empirical_F_cols ft components_order ! j))"
proof -
  let ?cols = "empirical_F_cols ft components_order"
  let ?G = "empirical_vector w base_dir ft fs realization msk"
  have templates: "\<forall>c\<in>set ?cols. has_template ft c"
    by (simp add: empirical_F_cols_def)
  from fill_reference_vectors_Inr [OF rv templates]
  have look: "\<And>c. c \<in> set ?cols \<Longrightarrow> getitem rv c = Inr (?G c)"
    by simp
  have len: "\<And>c. c \<in> set ?cols \<Longrightarrow> length (?G c) = length fs"
    by (rule length_empirical_vector) (simp add: empirical_F_cols_def)
  from stack_columns_run [of ?cols rv ?G "length fs", OF look len]
  obtain F where F: "stack_columns rv ?cols (length fs) = Inr F"
    and sh: "shape F = (length fs, length ?cols)" "length (rows F) = length fs"
      "\<forall>r\<in>set (rows F). length r = length ?cols"
    and col: "\<And>j. j < length ?cols \<Longrightarrow> column F j = ?G (?cols ! j)"
    by blast
  have "build_F_empirical w base_dir ft fs realization mask_path components_order =
          Inr (F, ?cols, rv, fs)"
    by (simp add: build_F_empirical_unfold msk cols rv F)
  with sh col look show ?thesis by auto
qed

lemma build_F_empirical_Inr:
  assumes "build_F_empirical w base_dir ft fs realization mask_path components_order =
             Inr (F, cols, rv, fo)"
  shows "\<exists>msk. read_mask w mask_path = Inr msk \<and>
           cols = empirical_F_cols ft components_order \<and> cols \<noteq> [] \<and> fo = fs \<and>
           shape F = (length fs, length cols) \<and>
           length (rows F) = length fs \<and>
           (\<forall>r\<in>set (rows F). length r = length cols) \<and>
           (\<forall>c\<in>set cols. component_loads w base_dir ft fs realization msk c) \<and>
           (\<forall>j<length cols.
              getitem rv (cols ! j) = Inr (column F j) \<and>
              column F j = empirical_vector w base_dir ft fs realization msk (cols ! j))"
proof -
  let ?cols = "empirical_F_cols ft components_order"
  from assms obtain msk where msk: "read_mask w mask_path = Inr msk"
    by (auto simp: build_F_empirical_unfold split: sum.splits)
  with assms have ne: "?cols \<noteq> []"
    by (auto simp: build_F_empirical_unfold split: if_splits)
  with assms msk obtain rv' where
    rv': "fill_reference_vectors w base_dir ft fs realization msk ?cols [] = Inr rv'"
    by (auto simp: build_F_empirical_unfold split: sum.splits)
  from build_F_empirical_body [OF msk ne rv'] assms
  have "cols = ?cols" "fo = fs" "rv' = rv"
    and props: "shape F = (length fs, length ?cols)" "length (rows F) = length fs"
      "\<forall>r\<in>set (rows F). length r = length ?cols"
      "\<forall>j<length ?cols. getitem rv' (?cols ! j) = Inr (column F j) \<and>
         column F j = empirical_vector w base_dir ft fs realization msk (?cols ! j)"
    by auto
  moreover have "\<forall>c\<in>set ?cols. has_template ft c"
    by (simp add: empirical_F_cols_def)
  from fill_reference_vectors_Inr [OF rv' this]
  have "\<forall>c\<in>set ?cols. component_loads w base_dir ft fs realization msk c"
    by simp
  ultimately show ?thesis using msk ne by auto
qed

lemma build_F_empirical_run:
  assumes msk: "read_mask w mask_path = Inr msk"
    and cols: "empirical_F_cols ft components_order \<noteq> []"
    and ok: "\<And>c. c \<in> set (empirical_F_cols ft components_order) \<Longrightarrow>
               component_loads w base_dir ft fs realization msk c"
  shows "\<exists>F rv. build_F_empirical w base_dir ft fs realization mask_path components_order =
               Inr (F, empirical_F_cols ft components_order, rv, fs)"
proof -
  from fill_reference_vectors_loads [of "empirical_F_cols ft components_order", OF ok]
  obtain rv where "fill_reference_vectors w base_dir ft fs realization msk
               (empirical_F_cols ft components_order) [] = Inr rv"
    by blast
  from build_F_empirical_body [OF msk cols this] show ?thesis by blast
qed

lemma comprehension_Inl: "comprehension g xs = Inl e \<Longrightarrow> \<exists>a\<in>set xs. g a = Inl e"
  by (induction xs) (auto split: sum.splits)

lemma getitem_Inl: "getitem d c = Inl e \<Longrightarrow> \<exists>t. e = Foreign t"
  by (auto simp: getitem_def split: option.splits)

lemma column_stack_Inl: "column_stack vs = Inl e \<Longrightarrow> \<exists>t. e = Foreign t"
  by (auto simp: column_stack_def split: list.splits if_splits)

lemma stack_columns_Inl:
  assumes "stack_columns rv cols n = Inl e"
  shows "\<exists>t. e = Foreign t"
proof (cases "comprehension (getitem rv) cols")
  case (Inl e')
  with assms have "e' = e" by (simp add: stack_columns_def split: if_splits)
  with comprehension_Inl [OF Inl] getitem_Inl show ?thesis by blast
next
  case (Inr columns)
  with assms have "column_stack columns = Inl e"
    by (simp add: stack_columns_def split: if_splits)
  then show ?thesis by (rule column_stack_Inl)
qed

lemma read_mask_Inl: "read_mask w mask_path = Inl e \<Longrightarrow> \<exists>t. e = Foreign t"
  by (cases "read_map w mask_path") (auto simp: read_mask_def foreign_def split: if_splits)

lemma build_F_empirical_no_valid:
  "build_F_empirical w base_dir ft fs realization mask_path components_order =
     Inl no_valid_components \<longleftrightarrow>
   (\<exists>msk. read_mask w mask_path = Inr msk) \<and> empirical_F_cols ft components_order = []"
proof (cases "read_mask w mask_path")
  case (Inl e)
  with read_mask_Inl [OF Inl] show ?thesis
    by (auto simp: build_F_empirical_unfold no_valid_components_def)
next
  case (Inr msk)
  show ?thesis
  proof (cases "empirical_F_cols ft components_order = []")
    case True
    with Inr show ?thesis by (simp add: build_F_empirical_unfold)
  next
    case False
    have "build_F_empirical w base_dir ft fs realization mask_path components_order \<noteq>
            Inl no_valid_components"
    proof
      assume bad: "build_F_empirical w base_dir ft fs realization mask_path components_order =
            Inl no_valid_components"
      show False
      proof (cases "fill_reference_vectors w base_dir ft fs realization msk
                       (empirical_F_cols ft components_order) []")
        case Inl': (Inl e)
        with bad Inr False have "e = no_valid_components"
          by (simp add: build_F_empirical_unfold)
        with fill_reference_vectors_Inl [OF Inl'] show False
          by (simp add: no_valid_components_def)
      next
        case Inr': (Inr rv)
        with bad Inr False
        have "stack_columns rv (empirical_F_cols ft components_order) (length fs) =
                Inl no_valid_components"
          by (simp add: build_F_empirical_unfold split: sum.splits)
        from stack_columns_Inl [OF this] show False
          by (simp add: no_valid_components_def)
      qed
    qed
    with False show ?thesis by simp
  qed
qed

lemma lower_more: "lower ''noise'' = ''noise''" "lower ''dust'' = ''dust''"
  by (simp_all add: lower_eval)

lemma float_of_digits_defaults:
  "map float_of_digits default_frequencies = map Inr [30, 44, 70, 100, 143, 217, 353, 545, 857]"
  by (simp add: default_frequencies_def float_of_digits_def digit_of_def)

lemma float_of_digits_tags:
  "float_of_digits ''030'' = Inr 30" "float_of_digits ''044'' = Inr 44"
  "float_of_digits ''100'' = Inr 100"
  by (simp_all add: float_of_digits_def digit_of_def)

lemma to_float_map:
  "map (to_float float_of) xs = map Inr vals \<longleftrightarrow> map float_of xs = map Inr vals"
proof (induction xs arbitrary: vals)
  case Nil
  then show ?case by simp
next
  case (Cons a xs)
  then show ?case
    by (cases vals; cases "float_of a") (auto simp: to_float_def)
qed

lemma comprehension_to_float:
  "comprehension (to_float float_of) xs = Inr vals \<longleftrightarrow> map float_of xs = map Inr vals"
  by (simp add: comprehension_Inr to_float_map)

subsection \<open>The constraint vector builder\<close>

text \<open>
  Claim C6. With \<^verbatim>\<open>F_cols\<close> given, \<^verbatim>\<open>find_f_from_extract_comp\<close> returns the vector
  \<open>f\<close> of \<^verbatim>\<open>find_f_from_names(F_cols, names)\<close>, and raises what that call raises; with
  \<^verbatim>\<open>F_cols\<close> omitted it does the same with the keys of \<^verbatim>\<open>reference_vectors\<close> in their
  iteration order. The matrix \<open>F\<close> plays no part.
\<close>

theorem find_f_from_extract_comp_delegates:
  "find_f_from_extract_comp F names reference_vectors (Some F_cols) =
     map_sum id fst (find_f_from_names F_cols names) \<and>
   find_f_from_extract_comp F names reference_vectors None =
     map_sum id fst (find_f_from_names (keys reference_vectors) names)"
proof -
  have same: "find_f_from_names cols (Many (names_of names)) = find_f_from_names cols names" for cols
    by (simp add: find_f_from_names_def names_of_def)
  have "find_f_from_extract_comp F names reference_vectors cols' =
          map_sum id fst (find_f_from_names
            (case cols' of None \<Rightarrow> keys reference_vectors | Some cols \<Rightarrow> cols) names)" for cols'
    unfolding find_f_from_extract_comp_def Let_def names_of_def [symmetric] same
    by (auto split: sum.splits)
  from this [of "Some F_cols"] this [of None] show ?thesis by simp
qed

subsection \<open>The dispatcher\<close>

text \<open>
  Claim C5, as amended. \<^verbatim>\<open>get_F\<close> is the call of \<^verbatim>\<open>build_F_theory\<close> with the keyword
  arguments it was given when the source is \<^verbatim>\<open>"theory"\<close>, the call of
  \<^verbatim>\<open>build_F_empirical\<close> with them when it is \<^verbatim>\<open>"empirical"\<close>, and for any other source
  it raises a \<^verbatim>\<open>ValueError\<close> with the fixed text that names the two accepted values.
  Arguments given for the builder's own parameters reach it unchanged.
\<close>

theorem get_F_dispatch:
  "get_F float_of w source kw =
     (if source = ''theory'' then call_build_F_theory float_of kw
      else if source = ''empirical'' then call_build_F_empirical w kw
      else Inl (ValueError [Text ''source must be 'theory' or 'empirical'.''])) \<and>
   get_F float_of w ''theory''
     \<lparr>kw_beta_s = Some beta_s, kw_nu0 = Some nu0, kw_frequencies = frequencies,
      kw_components_order = components_order, kw_base_dir = None, kw_file_templates = None,
      kw_realization = None, kw_mask_path = None, kw_others = []\<rparr> =
     build_F_theory float_of beta_s nu0 frequencies components_order \<and>
   get_F float_of w ''empirical''
     \<lparr>kw_beta_s = None, kw_nu0 = None, kw_frequencies = Some fs,
      kw_components_order = components_order, kw_base_dir = Some base_dir,
      kw_file_templates = Some file_templates, kw_realization = Some realization,
      kw_mask_path = Some mask_path, kw_others = []\<rparr> =
     build_F_empirical w base_dir file_templates fs realization mask_path components_order"
  by (simp add: get_F_def unknown_source_def call_build_F_theory_def call_build_F_empirical_def)

text \<open>The text raised for the source \<^verbatim>\<open>"bogus"\<close> does not contain \<^verbatim>\<open>bogus\<close>.\<close>

theorem get_F_message_counterexample:
  "get_F float_of_digits example_world ''bogus'' no_kwargs =
     Inl (ValueError [Text ''source must be 'theory' or 'empirical'.'']) \<and>
   \<not> sublist ''bogus'' ''source must be 'theory' or 'empirical'.''"
  by (simp add: get_F_def unknown_source_def sublist_Cons_right)

subsection \<open>Evaluating the examples\<close>

lemmas theory_eval =
  build_F_theory_def comprehension.simps to_float_def float_of_digits_tags theory_vecs_def
  keys_def lower_names lower_more getitem_def stack_columns_def column_stack_def
  cmb_response_def zeros2_def

lemma theory_example:
  "build_F_theory float_of_digits (- 3) 30000000000 (Some [''100'', ''030'']) (Some [''CMB'', ''noise'']) =
     Inr (\<lparr>shape = (2, 1), rows = [[1], [1]]\<rparr>, [''cmb''], [(''cmb'', [1, 1])], [''100'', ''030''])"
  by (simp add: theory_eval)

lemmas empirical_eval =
  build_F_empirical_unfold read_mask_def empirical_F_cols_def lower_names lower_more
  has_template_def example_templates_def example_world_def foreign_def path_join_def
  mean_map_def mean_of_def finite_values_def stack_columns_def getitem_def column_stack_def

lemma empirical_example:
  "build_F_empirical example_world ''maps'' example_templates [''030'', ''044''] 0 []
     (Some [''CMB'', ''dust'']) =
   Inr (\<lparr>shape = (2, 1), rows = [[2], [0]]\<rparr>, [''cmb''], [(''cmb'', [2, 0])], [''030'', ''044''])"
  by (simp add: empirical_eval)

theorem get_F_dispatch_witness:
  "get_F float_of_digits example_world ''theory''
     \<lparr>kw_beta_s = Some (- 3), kw_nu0 = Some 30000000000, kw_frequencies = Some [''100'', ''030''],
      kw_components_order = Some [''CMB'', ''noise''], kw_base_dir = None,
      kw_file_templates = None, kw_realization = None, kw_mask_path = None, kw_others = []\<rparr> =
     Inr (\<lparr>shape = (2, 1), rows = [[1], [1]]\<rparr>, [''cmb''], [(''cmb'', [1, 1])], [''100'', ''030'']) \<and>
   get_F float_of_digits example_world ''empirical''
     \<lparr>kw_beta_s = None, kw_nu0 = None, kw_frequencies = Some [''030'', ''044''],
      kw_components_order = Some [''CMB'', ''dust''], kw_base_dir = Some ''maps'',
      kw_file_templates = Some example_templates, kw_realization = Some 0,
      kw_mask_path = Some [], kw_others = []\<rparr> =
     Inr (\<lparr>shape = (2, 1), rows = [[2], [0]]\<rparr>, [''cmb''], [(''cmb'', [2, 0])], [''030'', ''044'']) \<and>
   get_F float_of_digits example_world ''Theory'' no_kwargs =
     Inl (ValueError [Text ''source must be 'theory' or 'empirical'.''])"
  using get_F_dispatch [where float_of = float_of_digits and w = example_world
      and beta_s = "- 3" and ?nu0.0 = "30000000000" and frequencies = "Some [''100'', ''030'']"
      and components_order = "Some [''CMB'', ''noise'']"]
    get_F_dispatch [where float_of = float_of_digits and w = example_world
      and fs = "[''030'', ''044'']" and components_order = "Some [''CMB'', ''dust'']"
      and base_dir = "''maps''" and file_templates = example_templates and realization = 0
      and mask_path = "[]"]
    get_F_dispatch [where float_of = float_of_digits and w = example_world
      and source = "''Theory''" and kw = no_kwargs]
  by (simp add: theory_example empirical_example)

subsection \<open>Columns of the theory builder\<close>

lemma comprehension_accepts:
  assumes "\<forall>x\<in>set xs. \<exists>v. g x = Inr v"
  shows "\<exists>vs. comprehension g xs = Inr vs"
  using assms by (induction xs) auto

text \<open>
  Claim C2. Let \<^verbatim>\<open>float\<close> accept every frequency tag. Then \<^verbatim>\<open>build_F_theory\<close> returns,
  whatever \<^verbatim>\<open>components_order\<close> is; \<^verbatim>\<open>F_cols\<close> is the requested names, lower-cased,
  that are among \<^verbatim>\<open>"cmb"\<close>, \<^verbatim>\<open>"tsz"\<close> and \<^verbatim>\<open>"sync"\<close>, in the order of the request,
  the other names being dropped; it is \<^verbatim>\<open>["cmb", "tsz", "sync"]\<close> when
  \<^verbatim>\<open>components_order\<close> is omitted; and when \<^verbatim>\<open>F_cols\<close> is empty, \<open>F\<close> has one row
  per frequency and no column.
\<close>

theorem build_F_theory_F_cols:
  assumes "\<forall>f\<in>set (case frequencies of None \<Rightarrow> default_frequencies | Some fs \<Rightarrow> fs).
             \<exists>v. float_of f = Inr v"
  shows "\<exists>F reference_vectors.
           build_F_theory float_of beta_s nu0 frequencies components_order =
             Inr (F,
                  (case components_order of
                     None \<Rightarrow> [''cmb'', ''tsz'', ''sync'']
                   | Some order \<Rightarrow> filter (\<lambda>c. c \<in> {''cmb'', ''tsz'', ''sync''}) (map lower order)),
                  reference_vectors,
                  (case frequencies of None \<Rightarrow> default_frequencies | Some fs \<Rightarrow> fs)) \<and>
           ((case components_order of
               None \<Rightarrow> [''cmb'', ''tsz'', ''sync'']
             | Some order \<Rightarrow> filter (\<lambda>c. c \<in> {''cmb'', ''tsz'', ''sync''}) (map lower order)) = []
            \<longrightarrow> shape F = (length (case frequencies of None \<Rightarrow> default_frequencies | Some fs \<Rightarrow> fs), 0) \<and>
                rows F = replicate
                  (length (case frequencies of None \<Rightarrow> default_frequencies | Some fs \<Rightarrow> fs)) [])"
proof -
  let ?tags = "case frequencies of None \<Rightarrow> default_frequencies | Some fs \<Rightarrow> fs"
  from assms have "\<forall>f\<in>set ?tags. \<exists>v. to_float float_of f = Inr v"
    by (auto simp: to_float_def)
  from comprehension_accepts [OF this]
  obtain vs where "comprehension (to_float float_of) ?tags = Inr vs" ..
  from build_F_theory_run [OF this, of beta_s nu0 components_order]
  show ?thesis by auto
qed

theorem build_F_theory_F_cols_witness:
  "(\<exists>F reference_vectors.
      build_F_theory float_of_digits (- 3) 30000000000 (Some [''100'', ''030''])
        (Some [''Sync'', ''noise'', ''CMB'', ''sync'']) =
      Inr (F, [''sync'', ''cmb'', ''sync''], reference_vectors, [''100'', ''030''])) \<and>
   (\<exists>F reference_vectors.
      build_F_theory float_of_digits (- 3) 30000000000 (Some [''100'', ''030'']) None =
      Inr (F, [''cmb'', ''tsz'', ''sync''], reference_vectors, [''100'', ''030''])) \<and>
   (\<exists>F reference_vectors.
      build_F_theory float_of_digits (- 3) 30000000000 (Some [''100'', ''030''])
        (Some [''dust'', ''noise'']) =
      Inr (F, [], reference_vectors, [''100'', ''030'']) \<and> shape F = (2, 0) \<and> rows F = [[], []])"
proof -
  have tags: "\<forall>f\<in>set (case Some [''100'', ''030''] of None \<Rightarrow> default_frequencies | Some fs \<Rightarrow> fs).
             \<exists>v. float_of_digits f = Inr v"
    by (simp add: float_of_digits_tags)
  from build_F_theory_F_cols [OF tags, of "- 3" "30000000000" "Some [''Sync'', ''noise'', ''CMB'', ''sync'']"]
    build_F_theory_F_cols [OF tags, of "- 3" "30000000000" None]
    build_F_theory_F_cols [OF tags, of "- 3" "30000000000" "Some [''dust'', ''noise'']"]
  show ?thesis
    by (simp add: lower_names lower_more numeral_2_eq_2)
qed

subsection \<open>Shape and columns of both builders\<close>

text \<open>
  Claim C8. On every successful return of either builder, \<open>F\<close> has one row per
  frequency of \<^verbatim>\<open>frequencies_out\<close> and one column per name of \<^verbatim>\<open>F_cols\<close>, and column
  \<open>j\<close> is the vector \<^verbatim>\<open>reference_vectors[F_cols[j]]\<close>, of that many entries. Its entry
  \<open>i\<close> belongs to frequency \<open>i\<close> of the input list: in the theory builder it is
  the response of the component at the value of tag \<open>i\<close>, in the empirical builder
  the measured mean of the component's template at tag \<open>i\<close>.
\<close>

theorem F_columns_are_reference_vectors:
  "(build_F_theory float_of beta_s nu0 frequencies components_order =
      Inr (F, F_cols, reference_vectors, frequencies_out) \<longrightarrow>
    frequencies_out = (case frequencies of None \<Rightarrow> default_frequencies | Some fs \<Rightarrow> fs) \<and>
    shape F = (length frequencies_out, length F_cols) \<and>
    (\<exists>vs. map float_of frequencies_out = map Inr vs \<and>
       (\<forall>j<length F_cols.
          getitem reference_vectors (F_cols ! j) = Inr (column F j) \<and>
          length (column F j) = length frequencies_out \<and>
          column F j = map (\<lambda>v. response beta_s nu0 (F_cols ! j) (v * 10 ^ 9)) vs))) \<and>
   (build_F_empirical w base_dir file_templates frequencies' realization mask_path components_order' =
      Inr (F', F_cols', reference_vectors', frequencies_out') \<longrightarrow>
    frequencies_out' = frequencies' \<and>
    shape F' = (length frequencies_out', length F_cols') \<and>
    (\<exists>msk. read_mask w mask_path = Inr msk \<and>
       (\<forall>j<length F_cols'.
          getitem reference_vectors' (F_cols' ! j) = Inr (column F' j) \<and>
          length (column F' j) = length frequencies_out' \<and>
          (\<exists>tmpl. file_templates (F_cols' ! j) = Some (Some tmpl) \<and>
             column F' j = map (measured w base_dir tmpl realization msk) frequencies'))))"
proof (intro conjI impI)
  let ?tags = "case frequencies of None \<Rightarrow> default_frequencies | Some fs \<Rightarrow> fs"
  assume run: "build_F_theory float_of beta_s nu0 frequencies components_order =
      Inr (F, F_cols, reference_vectors, frequencies_out)"
  from build_F_theory_Inr_parse [OF run]
  obtain vs where vs: "comprehension (to_float float_of) ?tags = Inr vs" ..
  then have len: "length vs = length ?tags"
    by (auto simp: comprehension_Inr dest: arg_cong [where f = length])
  from build_F_theory_run [OF vs, of beta_s nu0 components_order] run
  have out: "frequencies_out = ?tags"
    and sh: "shape F = (length ?tags, length F_cols)"
    and col: "\<forall>j<length F_cols.
          getitem reference_vectors (F_cols ! j) = Inr (column F j) \<and>
          column F j = map (\<lambda>v. response beta_s nu0 (F_cols ! j) (v * 10 ^ 9)) vs"
    by auto
  show "frequencies_out = ?tags" by (rule out)
  show "shape F = (length frequencies_out, length F_cols)" using sh out by simp
  have "map float_of frequencies_out = map Inr vs"
    using vs out by (simp add: comprehension_to_float)
  moreover have "\<forall>j<length F_cols.
          getitem reference_vectors (F_cols ! j) = Inr (column F j) \<and>
          length (column F j) = length frequencies_out \<and>
          column F j = map (\<lambda>v. response beta_s nu0 (F_cols ! j) (v * 10 ^ 9)) vs"
    using col len out by simp
  ultimately show "\<exists>vs. map float_of frequencies_out = map Inr vs \<and>
       (\<forall>j<length F_cols.
          getitem reference_vectors (F_cols ! j) = Inr (column F j) \<and>
          length (column F j) = length frequencies_out \<and>
          column F j = map (\<lambda>v. response beta_s nu0 (F_cols ! j) (v * 10 ^ 9)) vs)"
    by blast
next
  assume run: "build_F_empirical w base_dir file_templates frequencies' realization mask_path
      components_order' = Inr (F', F_cols', reference_vectors', frequencies_out')"
  from build_F_empirical_Inr [OF run]
  obtain msk where msk: "read_mask w mask_path = Inr msk"
    and cols: "F_cols' = empirical_F_cols file_templates components_order'"
    and out: "frequencies_out' = frequencies'"
    and sh: "shape F' = (length frequencies', length F_cols')"
    and col: "\<forall>j<length F_cols'.
              getitem reference_vectors' (F_cols' ! j) = Inr (column F' j) \<and>
              column F' j = empirical_vector w base_dir file_templates frequencies' realization msk
                              (F_cols' ! j)"
    by blast
  show "frequencies_out' = frequencies'" by (rule out)
  show "shape F' = (length frequencies_out', length F_cols')" using sh out by simp
  have "getitem reference_vectors' (F_cols' ! j) = Inr (column F' j) \<and>
          length (column F' j) = length frequencies_out' \<and>
          (\<exists>tmpl. file_templates (F_cols' ! j) = Some (Some tmpl) \<and>
             column F' j = map (measured w base_dir tmpl realization msk) frequencies')"
    if j: "j < length F_cols'" for j
  proof -
    from j cols have "has_template file_templates (F_cols' ! j)"
      using nth_mem [OF j] by (simp add: empirical_F_cols_def)
    then obtain tmpl where "file_templates (F_cols' ! j) = Some (Some tmpl)"
      by (auto simp: has_template_def split: option.splits)
    with col j out show ?thesis
      by (simp add: empirical_vector_def)
  qed
  with msk show "\<exists>msk. read_mask w mask_path = Inr msk \<and>
       (\<forall>j<length F_cols'.
          getitem reference_vectors' (F_cols' ! j) = Inr (column F' j) \<and>
          length (column F' j) = length frequencies_out' \<and>
          (\<exists>tmpl. file_templates (F_cols' ! j) = Some (Some tmpl) \<and>
             column F' j = map (measured w base_dir tmpl realization msk) frequencies'))"
    by blast
qed

theorem F_columns_are_reference_vectors_witness:
  "build_F_theory float_of_digits (- 3) 30000000000 (Some [''100'', ''030'']) (Some [''CMB'', ''noise'']) =
     Inr (\<lparr>shape = (2, 1), rows = [[1], [1]]\<rparr>, [''cmb''], [(''cmb'', [1, 1])], [''100'', ''030'']) \<and>
   shape \<lparr>shape = (2, 1), rows = [[1], [1]]\<rparr> = (length [''100'', ''030''], length [''cmb'']) \<and>
   getitem [(''cmb'', [1, 1])] ''cmb'' = Inr (column \<lparr>shape = (2, 1), rows = [[1], [1]]\<rparr> 0) \<and>
   build_F_empirical example_world ''maps'' example_templates [''030'', ''044''] 0 []
     (Some [''CMB'', ''dust'']) =
     Inr (\<lparr>shape = (2, 1), rows = [[2], [0]]\<rparr>, [''cmb''], [(''cmb'', [2, 0])], [''030'', ''044'']) \<and>
   shape \<lparr>shape = (2, 1), rows = [[2], [0]]\<rparr> = (length [''030'', ''044''], length [''cmb'']) \<and>
   getitem [(''cmb'', [2, 0])] ''cmb'' = Inr (column \<lparr>shape = (2, 1), rows = [[2], [0]]\<rparr> 0)"
proof -
  note inst = F_columns_are_reference_vectors [where float_of = float_of_digits and beta_s = "- 3"
      and ?nu0.0 = 30000000000 and frequencies = "Some [''100'', ''030'']"
      and components_order = "Some [''CMB'', ''noise'']"
      and F = "\<lparr>shape = (2, 1), rows = [[1], [1]]\<rparr>" and F_cols = "[''cmb'']"
      and reference_vectors = "[(''cmb'', [1, 1])]" and frequencies_out = "[''100'', ''030'']"
      and w = example_world and base_dir = "''maps''" and file_templates = example_templates
      and frequencies' = "[''030'', ''044'']" and realization = 0 and mask_path = "[]"
      and components_order' = "Some [''CMB'', ''dust'']"
      and F' = "\<lparr>shape = (2, 1), rows = [[2], [0]]\<rparr>" and F_cols' = "[''cmb'']"
      and reference_vectors' = "[(''cmb'', [2, 0])]" and frequencies_out' = "[''030'', ''044'']"]
  from inst [THEN conjunct1, rule_format, OF theory_example]
    inst [THEN conjunct2, rule_format, OF empirical_example]
  show ?thesis
    using theory_example empirical_example by (auto simp: getitem_def column_def)
qed

subsection \<open>Outcomes of the empirical builder\<close>

lemma measured_missing:
  "format w tmpl f realization = Inr name \<Longrightarrow> \<not> path_exists w (path_join base_dir name) \<Longrightarrow>
   measured w base_dir tmpl realization msk f = 0"
  by (simp add: measured_def)

lemma measured_no_files: "(\<forall>p. \<not> path_exists w p) \<Longrightarrow> measured w base_dir tmpl realization msk f = 0"
  by (simp add: measured_def split: sum.splits)

lemma rows_entry:
  "i < length (rows F) \<Longrightarrow> rows F ! i ! j = column F j ! i"
  by (simp add: column_def)

text \<open>
  Claim C4, as amended. The requested names are \<^verbatim>\<open>components_order\<close>, or the default
  \<^verbatim>\<open>["cmb", "tsz", "sync"]\<close> when \<^verbatim>\<open>components_order\<close> is omitted or empty; \<^verbatim>\<open>F_cols\<close> is
  the requested names, lower-cased, that have a template that is not \<^verbatim>\<open>None\<close>.
  \<^verbatim>\<open>build_F_empirical\<close> raises the \<^verbatim>\<open>ValueError\<close> for no valid components if and only if
  the mask, when a mask path is given, is read and \<^verbatim>\<open>F_cols\<close> is empty. When the mask
  is read, \<^verbatim>\<open>F_cols\<close> is not empty, every template formats at every frequency and
  every map file that exists is read, it returns; \<open>F\<close> has one row per frequency and
  one column per name of \<^verbatim>\<open>F_cols\<close>; an entry whose map file does not exist is 0; and
  with no existing file at all \<open>F\<close> is all zeros.
\<close>

theorem build_F_empirical_outcomes:
  "(build_F_empirical w base_dir file_templates frequencies realization mask_path components_order =
      Inl (ValueError [Text ''No valid components in file_templates for empirical F.'']) \<longleftrightarrow>
    (\<exists>msk. read_mask w mask_path = Inr msk) \<and>
    empirical_F_cols file_templates components_order = []) \<and>
   (read_mask w mask_path = Inr msk \<and>
    empirical_F_cols file_templates components_order \<noteq> [] \<and>
    (\<forall>c\<in>set (empirical_F_cols file_templates components_order).
       component_loads w base_dir file_templates frequencies realization msk c) \<longrightarrow>
    (\<exists>F reference_vectors.
       build_F_empirical w base_dir file_templates frequencies realization mask_path components_order =
         Inr (F, empirical_F_cols file_templates components_order, reference_vectors, frequencies) \<and>
       shape F = (length frequencies, length (empirical_F_cols file_templates components_order)) \<and>
       length (rows F) = length frequencies \<and>
       (\<forall>row\<in>set (rows F). length row = length (empirical_F_cols file_templates components_order)) \<and>
       (\<forall>i<length frequencies. \<forall>j<length (empirical_F_cols file_templates components_order).
          \<forall>tmpl name.
            file_templates (empirical_F_cols file_templates components_order ! j) = Some (Some tmpl) \<and>
            format w tmpl (frequencies ! i) realization = Inr name \<and>
            \<not> path_exists w (path_join base_dir name) \<longrightarrow>
            rows F ! i ! j = 0) \<and>
       ((\<forall>p. \<not> path_exists w p) \<longrightarrow>
          rows F = replicate (length frequencies)
                     (replicate (length (empirical_F_cols file_templates components_order)) 0))))"
proof (intro conjI impI)
  show "build_F_empirical w base_dir file_templates frequencies realization mask_path components_order =
      Inl (ValueError [Text ''No valid components in file_templates for empirical F.'']) \<longleftrightarrow>
    (\<exists>msk. read_mask w mask_path = Inr msk) \<and>
    empirical_F_cols file_templates components_order = []"
    using build_F_empirical_no_valid [of w base_dir file_templates frequencies realization
        mask_path components_order]
    by (simp add: no_valid_components_def)
next
  let ?cols = "empirical_F_cols file_templates components_order"
  assume "read_mask w mask_path = Inr msk \<and> ?cols \<noteq> [] \<and>
    (\<forall>c\<in>set ?cols. component_loads w base_dir file_templates frequencies realization msk c)"
  then have msk: "read_mask w mask_path = Inr msk" and ne: "?cols \<noteq> []"
    and ok: "\<And>c. c \<in> set ?cols \<Longrightarrow>
               component_loads w base_dir file_templates frequencies realization msk c"
    by auto
  from build_F_empirical_run [OF msk ne ok]
  obtain F rv where run:
    "build_F_empirical w base_dir file_templates frequencies realization mask_path components_order =
       Inr (F, ?cols, rv, frequencies)"
    by blast
  from build_F_empirical_Inr [OF run] msk
  have sh: "shape F = (length frequencies, length ?cols)"
    and nrows: "length (rows F) = length frequencies"
    and ncols: "\<forall>row\<in>set (rows F). length row = length ?cols"
    and col: "\<And>j. j < length ?cols \<Longrightarrow>
        column F j = empirical_vector w base_dir file_templates frequencies realization msk (?cols ! j)"
    by auto
  have entry: "rows F ! i ! j = measured w base_dir tmpl realization msk (frequencies ! i)"
    if "i < length frequencies" "j < length ?cols" "file_templates (?cols ! j) = Some (Some tmpl)"
    for i j tmpl
    using that nrows col [of j] by (simp add: rows_entry empirical_vector_def)
  have missing: "\<forall>i<length frequencies. \<forall>j<length ?cols. \<forall>tmpl name.
        file_templates (?cols ! j) = Some (Some tmpl) \<and>
        format w tmpl (frequencies ! i) realization = Inr name \<and>
        \<not> path_exists w (path_join base_dir name) \<longrightarrow> rows F ! i ! j = 0"
    using entry by (auto simp: measured_missing)
  have zeros: "rows F = replicate (length frequencies) (replicate (length ?cols) 0)"
    if none: "\<forall>p. \<not> path_exists w p"
  proof (rule nth_equalityI)
    show "length (rows F) = length (replicate (length frequencies) (replicate (length ?cols) 0))"
      using nrows by simp
  next
    fix i assume "i < length (rows F)"
    with nrows have i: "i < length frequencies" by simp
    with nrows ncols have len: "length (rows F ! i) = length ?cols" by simp
    have "rows F ! i = replicate (length ?cols) 0"
    proof (rule nth_equalityI)
      show "length (rows F ! i) = length (replicate (length ?cols) (0 :: real))"
        using len by simp
    next
      fix j assume "j < length (rows F ! i)"
      with len have j: "j < length ?cols" by simp
      then have "has_template file_templates (?cols ! j)"
        using nth_mem [OF j] by (simp add: empirical_F_cols_def)
      then obtain tmpl where "file_templates (?cols ! j) = Some (Some tmpl)"
        by (auto simp: has_template_def split: option.splits)
      from entry [OF i j this] measured_no_files [OF none] j
      show "rows F ! i ! j = replicate (length ?cols) 0 ! j" by simp
    qed
    with i show "rows F ! i = replicate (length frequencies) (replicate (length ?cols) 0) ! i"
      by simp
  qed
  show "\<exists>F reference_vectors.
       build_F_empirical w base_dir file_templates frequencies realization mask_path components_order =
         Inr (F, ?cols, reference_vectors, frequencies) \<and>
       shape F = (length frequencies, length ?cols) \<and>
       length (rows F) = length frequencies \<and>
       (\<forall>row\<in>set (rows F). length row = length ?cols) \<and>
       (\<forall>i<length frequencies. \<forall>j<length ?cols. \<forall>tmpl name.
            file_templates (?cols ! j) = Some (Some tmpl) \<and>
            format w tmpl (frequencies ! i) realization = Inr name \<and>
            \<not> path_exists w (path_join base_dir name) \<longrightarrow>
            rows F ! i ! j = 0) \<and>
       ((\<forall>p. \<not> path_exists w p) \<longrightarrow>
          rows F = replicate (length frequencies) (replicate (length ?cols) 0))"
    using run sh nrows ncols missing zeros by blast
qed

text \<open>
  With the empty list as \<^verbatim>\<open>components_order\<close> no requested name has a template, and the
  call returns the matrix of the default components.
\<close>

theorem build_F_empirical_empty_request_counterexample:
  "filter (has_template example_templates) (map lower []) = [] \<and>
   build_F_empirical example_world ''maps'' example_templates [''030'', ''044''] 0 [] (Some []) =
     Inr (\<lparr>shape = (2, 1), rows = [[2], [0]]\<rparr>, [''cmb''], [(''cmb'', [2, 0])], [''030'', ''044''])"
  by (simp add: empirical_eval)

lemma example_cols:
  "empirical_F_cols example_templates (Some [''CMB'', ''dust'']) = [''cmb'']"
  "empirical_F_cols example_templates (Some [''dust'', ''tsz'']) = []"
  by (simp_all add: empirical_F_cols_def has_template_def example_templates_def lower_names lower_more)

lemma example_loads:
  "component_loads example_world ''maps'' example_templates [''030'', ''044''] 0 None ''cmb''"
  "component_loads (example_world\<lparr>path_exists := \<lambda>p. False\<rparr>) ''maps'' example_templates
     [''030'', ''044''] 0 None ''cmb''"
  by (simp_all add: component_loads_def loads_def example_templates_def example_world_def
      path_join_def mean_map_def foreign_def)

theorem build_F_empirical_outcomes_witness:
  "build_F_empirical example_world ''maps'' example_templates [''030'', ''044''] 0 []
     (Some [''dust'', ''tsz'']) =
     Inl (ValueError [Text ''No valid components in file_templates for empirical F.'']) \<and>
   (\<exists>F reference_vectors.
      build_F_empirical (example_world\<lparr>path_exists := \<lambda>p. False\<rparr>) ''maps'' example_templates
        [''030'', ''044''] 0 [] (Some [''CMB'', ''dust'']) =
        Inr (F, [''cmb''], reference_vectors, [''030'', ''044'']) \<and>
      shape F = (2, 1) \<and> rows F = [[0], [0]]) \<and>
   (\<exists>F reference_vectors.
      build_F_empirical example_world ''maps'' example_templates
        [''030'', ''044''] 0 [] (Some [''CMB'', ''dust'']) =
        Inr (F, [''cmb''], reference_vectors, [''030'', ''044'']) \<and>
      shape F = (2, 1) \<and> rows F = [[2], [0]])"
proof -
  have msk: "read_mask w [] = Inr None" for w
    by (simp add: read_mask_def)
  from build_F_empirical_outcomes [of example_world "''maps''" example_templates
      "[''030'', ''044'']" 0 "[]" "Some [''dust'', ''tsz'']"]
  have first: "build_F_empirical example_world ''maps'' example_templates [''030'', ''044''] 0 []
     (Some [''dust'', ''tsz'']) =
     Inl (ValueError [Text ''No valid components in file_templates for empirical F.''])"
    by (simp add: msk example_cols)
  from build_F_empirical_outcomes [of "example_world\<lparr>path_exists := \<lambda>p. False\<rparr>" "''maps''"
      example_templates "[''030'', ''044'']" 0 "[]" "Some [''CMB'', ''dust'']" None]
  have second: "\<exists>F reference_vectors.
      build_F_empirical (example_world\<lparr>path_exists := \<lambda>p. False\<rparr>) ''maps'' example_templates
        [''030'', ''044''] 0 [] (Some [''CMB'', ''dust'']) =
        Inr (F, [''cmb''], reference_vectors, [''030'', ''044'']) \<and>
      shape F = (2, 1) \<and> rows F = [[0], [0]]"
    by (auto simp: msk example_cols example_loads numeral_2_eq_2)
  from build_F_empirical_outcomes [of example_world "''maps''"
      example_templates "[''030'', ''044'']" 0 "[]" "Some [''CMB'', ''dust'']" None]
  have third: "\<exists>F reference_vectors.
      build_F_empirical example_world ''maps'' example_templates
        [''030'', ''044''] 0 [] (Some [''CMB'', ''dust'']) =
        Inr (F, [''cmb''], reference_vectors, [''030'', ''044'']) \<and>
      shape F = (2, 1) \<and> rows F = [[2], [0]]"
    by (auto simp: msk example_cols example_loads empirical_example)
  from first second third show ?thesis by blast
qed

subsection \<open>The default call of the theory builder\<close>

lemma x_of_pos: "0 < nu \<Longrightarrow> 0 < x_of nu"
  by (simp add: x_of_def h_planck_def k_boltzmann_def T_cmb_def)

lemma responses_defined_pos:
  assumes "0 < nu" and "0 < nu0"
  shows "responses_defined nu0 nu"
proof -
  from x_of_pos [OF assms(1)] have x: "0 < x_of nu" .
  then have e: "1 < exp (x_of nu)" by simp
  then have d: "exp (x_of nu) - 1 \<noteq> 0" by simp
  have "g_nu nu \<noteq> 0"
    using x d by (simp add: g_nu_def)
  with d assms show ?thesis
    by (simp add: responses_defined_def)
qed

lemma default_x_range:
  "list_all (\<lambda>nu. 1 / 2 < x_of nu \<and> x_of nu < 16)
     (map (\<lambda>v. v * 10 ^ 9) [30, 44, 70, 100, 143, 217, 353, 545, 857])"
  by (simp add: x_of_def h_planck_def k_boltzmann_def T_cmb_def)

lemma exp_16_le: "exp (16 :: real) \<le> 3 ^ 16"
proof -
  have "exp (16 :: real) = exp (of_nat 16 * 1)" by simp
  also have "\<dots> = exp 1 ^ 16" by (rule exp_of_nat_mult)
  also have "\<dots> \<le> 3 ^ 16" by (rule power_mono) (simp_all add: exp_le)
  finally show ?thesis .
qed

lemma tsz_response_bound:
  assumes lo: "1 / 2 < x_of nu" and hi: "x_of nu < 16"
  shows "\<bar>tsz_response nu\<bar> < 76"
proof -
  define x where "x = x_of nu"
  define E where "E = exp x"
  have x: "1 / 2 < x" "x < 16" using lo hi by (simp_all add: x_def)
  have "1 + x \<le> E" unfolding E_def by (rule exp_ge_add_one_self)
  with x have d: "1 / 2 < E - 1" by simp
  then have "2 / (E - 1) < 4"
    by (simp add: field_simps)
  moreover have "(E + 1) / (E - 1) = 1 + 2 / (E - 1)"
    using d by (simp add: field_simps)
  ultimately have r: "(E + 1) / (E - 1) < 5" by simp
  have r0: "0 < (E + 1) / (E - 1)" using d by simp
  have "x * ((E + 1) / (E - 1)) < 16 * 5"
    using x r r0 by (intro mult_strict_mono) simp_all
  moreover have "0 < x * ((E + 1) / (E - 1))"
    using x r0 by (intro mult_pos_pos) simp_all
  ultimately show ?thesis
    by (simp add: tsz_response_def x_def [symmetric] E_def [symmetric])
qed

lemma sync_response_bound:
  assumes lo: "1 / 2 < x_of nu" and hi: "x_of nu < 16" and nu0: "0 < nu0" "nu0 \<le> nu"
    and beta: "beta_s \<le> 0"
  shows "0 < sync_response beta_s nu0 nu" and "sync_response beta_s nu0 nu < 2 * 10 ^ 8"
proof -
  define x where "x = x_of nu"
  define E where "E = exp x"
  have x: "1 / 2 < x" "x < 16" using lo hi by (simp_all add: x_def)
  have "1 + x \<le> E" unfolding E_def by (rule exp_ge_add_one_self)
  with x have d: "1 / 2 < E - 1" by simp
  have E16: "E < 3 ^ 16"
    using x exp_16_le unfolding E_def by (smt (verit) exp_less_cancel_iff)
  have g: "g_nu nu = x\<^sup>2 * E / (E - 1)\<^sup>2"
    by (simp add: g_nu_def x_def E_def)
  have gpos: "0 < g_nu nu" using x d by (simp add: g)
  have "(E - 1)\<^sup>2 < E * E"
  proof -
    have "(E - 1)\<^sup>2 = E * E - 2 * E + 1" by (simp add: power2_eq_square algebra_simps)
    with d show ?thesis by simp
  qed
  then have "(E - 1)\<^sup>2 / (x\<^sup>2 * E) < E * E / (x\<^sup>2 * E)"
    using x d by (intro divide_strict_right_mono) simp_all
  also have "\<dots> = E / x\<^sup>2" using d by simp
  also have "\<dots> < 3 ^ 16 / x\<^sup>2"
    using E16 x by (intro divide_strict_right_mono) simp_all
  also have "\<dots> \<le> 3 ^ 16 / (1 / 2)\<^sup>2"
  proof -
    have "(1 / 2)\<^sup>2 \<le> x\<^sup>2" using x by (intro power_mono) simp_all
    moreover have "0 < x\<^sup>2" using x by simp
    ultimately show ?thesis by (intro divide_left_mono mult_pos_pos) simp_all
  qed
  also have "\<dots> = 4 * 3 ^ 16" by (simp add: power2_eq_square)
  finally have inv: "1 / g_nu nu < 4 * 3 ^ 16"
    by (simp add: g)
  have base: "1 \<le> nu / nu0" using nu0 by simp
  have p: "0 < (nu / nu0) powr beta_s" "(nu / nu0) powr beta_s \<le> 1"
  proof -
    from nu0 show "0 < (nu / nu0) powr beta_s" by simp
    from base beta have "(nu / nu0) powr beta_s \<le> (nu / nu0) powr 0"
      by (intro powr_mono) simp_all
    with nu0 show "(nu / nu0) powr beta_s \<le> 1" by (simp split: if_splits)
  qed
  show "0 < sync_response beta_s nu0 nu"
    using p gpos by (simp add: sync_response_def)
  have "sync_response beta_s nu0 nu = (nu / nu0) powr beta_s * (1 / g_nu nu)"
    by (simp add: sync_response_def)
  also have "\<dots> \<le> 1 * (1 / g_nu nu)"
    using p gpos by (intro mult_right_mono) simp_all
  also have "\<dots> < 4 * 3 ^ 16" using inv by simp
  also have "\<dots> < (2 * 10 ^ 8 :: real)" by simp
  finally show "sync_response beta_s nu0 nu < 2 * 10 ^ 8" .
qed

lemma default_entry_bound:
  assumes nu: "nu \<in> set (map (\<lambda>v. v * 10 ^ 9) [30, 44, 70, 100, 143, 217, 353, 545, 857])"
    and c: "c \<in> {''cmb'', ''tsz'', ''sync''}"
  shows "\<bar>response (- 31 / 10) (30 * 10 ^ 9) c nu\<bar> < 2 * 10 ^ 8"
proof -
  from nu default_x_range have x: "1 / 2 < x_of nu" "x_of nu < 16"
    unfolding list_all_iff by blast+
  from nu have lo: "(30 * 10 ^ 9 :: real) \<le> nu" by auto
  from tsz_response_bound [OF x] have tsz: "\<bar>tsz_response nu\<bar> < 2 * 10 ^ 8" by simp
  from sync_response_bound [OF x _ lo, of "- 31 / 10"]
  have sync: "\<bar>sync_response (- 31 / 10) (30 * 10 ^ 9) nu\<bar> < 2 * 10 ^ 8" by simp
  from c tsz sync show ?thesis
    by (auto simp: response_def cmb_response_def)
qed

lemma x_of_explicit:
  "x_of (v * 10 ^ 9) = 662607015 / 10 ^ 42 * (v * 10 ^ 9) / (1380649 / 10 ^ 29 * (27255 / 10 ^ 4))"
  unfolding x_of_def h_planck_def k_boltzmann_def T_cmb_def by (rule refl)

lemma tsz_response_explicit:
  "tsz_response (v * 10 ^ 9) =
     x_of (v * 10 ^ 9) * ((exp (x_of (v * 10 ^ 9)) + 1) / (exp (x_of (v * 10 ^ 9)) - 1)) - 4"
  unfolding tsz_response_def by (rule refl)

lemma sync_response_explicit:
  "sync_response beta_s nu0 (v * 10 ^ 9) =
     (v * 10 ^ 9 / nu0) powr beta_s /
     ((x_of (v * 10 ^ 9))\<^sup>2 * exp (x_of (v * 10 ^ 9)) / (exp (x_of (v * 10 ^ 9)) - 1)\<^sup>2)"
  unfolding sync_response_def g_nu_def by (rule refl)

text \<open>
  Claim C3. Write \<open>X v\<close> for \<open>x = h \<nu> / (k T)\<close> at the frequency \<open>\<nu> = v * 10^9\<close> Hz, with
  \<open>h = 6.62607015e-34\<close>, \<open>k = 1.380649e-23\<close> and \<open>T = 2.7255\<close>, and \<open>g = x\<^sup>2 e\<^sup>x / (e\<^sup>x - 1)\<^sup>2\<close>
  for the conversion factor.

  Let \<^verbatim>\<open>float\<close> read the nine default tags as 30, 44, 70, 100, 143, 217, 353, 545 and
  857. Then \<^verbatim>\<open>build_F_theory()\<close> returns a matrix of 9 rows and 3 columns for
  \<^verbatim>\<open>["cmb", "tsz", "sync"]\<close>; its first column is 1 in every row, its second column is
  \<open>x (e\<^sup>x + 1) / (e\<^sup>x - 1) - 4\<close> and its third \<open>(\<nu>/\<nu>\<^sub>0) powr \<beta>\<^sub>s / g\<close> at the nine
  frequencies; there \<open>x\<close> lies between 1/2 and 16, no denominator is zero and the base
  of the power is positive; and every entry of the matrix is smaller than \<open>2 * 10^8\<close>
  in absolute value, which is what finiteness is for the real numbers of this model.

  And whenever \<^verbatim>\<open>float\<close> reads the frequency tags as positive values \<open>vs\<close> and \<open>\<nu>\<^sub>0\<close> is
  positive, \<^verbatim>\<open>build_F_theory(components_order=["sync", "cmb"])\<close> returns
  \<^verbatim>\<open>F_cols == ["sync", "cmb"]\<close>, column 0 is \<open>(\<nu>/\<nu>\<^sub>0) powr \<beta>\<^sub>s / g\<close> at each frequency, with
  no denominator zero and a positive base, and column 1 is all ones. (At a frequency
  0, or with \<open>\<nu>\<^sub>0 = 0\<close>, numpy computes nan or inf, which a real number is not.)
\<close>

theorem build_F_theory_default_call:
  fixes X :: "real \<Rightarrow> real"
  defines "X \<equiv> \<lambda>v. 662607015 / 10 ^ 42 * (v * 10 ^ 9) / (1380649 / 10 ^ 29 * (27255 / 10 ^ 4))"
  shows
  "(map float_of default_frequencies = map Inr [30, 44, 70, 100, 143, 217, 353, 545, 857] \<longrightarrow>
      (\<exists>F reference_vectors.
         build_F_theory float_of (- 31 / 10) (30 * 10 ^ 9) None None =
           Inr (F, [''cmb'', ''tsz'', ''sync''], reference_vectors, default_frequencies) \<and>
         shape F = (9, 3) \<and> length (rows F) = 9 \<and> (\<forall>row\<in>set (rows F). length row = 3) \<and>
         column F 0 = replicate 9 1 \<and>
         column F 1 = map (\<lambda>v. X v * ((exp (X v) + 1) / (exp (X v) - 1)) - 4)
           [30, 44, 70, 100, 143, 217, 353, 545, 857] \<and>
         column F 2 = map (\<lambda>v. (v * 10 ^ 9 / (30 * 10 ^ 9)) powr (- 31 / 10) /
                               ((X v)\<^sup>2 * exp (X v) / (exp (X v) - 1)\<^sup>2))
           [30, 44, 70, 100, 143, 217, 353, 545, 857] \<and>
         (\<forall>v\<in>set [30, 44, 70, 100, 143, 217, 353, 545, 857].
            1 / 2 < X v \<and> X v < 16 \<and> exp (X v) - 1 \<noteq> 0 \<and>
            (X v)\<^sup>2 * exp (X v) / (exp (X v) - 1)\<^sup>2 \<noteq> 0 \<and>
            0 < v * 10 ^ 9 / (30 * 10 ^ 9)) \<and>
         list_all (responses_defined (30 * 10 ^ 9))
           (map (\<lambda>v. v * 10 ^ 9) [30, 44, 70, 100, 143, 217, 353, 545, 857]) \<and>
         (\<forall>i<9. \<forall>j<3. \<bar>rows F ! i ! j\<bar> < 2 * 10 ^ 8))) \<and>
   (map float_of (case frequencies of None \<Rightarrow> default_frequencies | Some fs \<Rightarrow> fs) = map Inr vs \<and>
    0 < nu0 \<and> (\<forall>v\<in>set vs. 0 < v) \<longrightarrow>
      (\<exists>F reference_vectors.
         build_F_theory float_of beta_s nu0 frequencies (Some [''sync'', ''cmb'']) =
           Inr (F, [''sync'', ''cmb''], reference_vectors,
                (case frequencies of None \<Rightarrow> default_frequencies | Some fs \<Rightarrow> fs)) \<and>
         column F 0 = map (\<lambda>v. (v * 10 ^ 9 / nu0) powr beta_s /
                               ((X v)\<^sup>2 * exp (X v) / (exp (X v) - 1)\<^sup>2)) vs \<and>
         column F 1 = map (\<lambda>v. 1) vs \<and>
         (\<forall>v\<in>set vs. 0 < X v \<and> exp (X v) - 1 \<noteq> 0 \<and>
            (X v)\<^sup>2 * exp (X v) / (exp (X v) - 1)\<^sup>2 \<noteq> 0 \<and> 0 < v * 10 ^ 9 / nu0)))"
proof (intro conjI impI)
  have X: "x_of (v * 10 ^ 9) = X v" for v
    unfolding X_def by (rule x_of_explicit)
  have tsz: "tsz_response (v * 10 ^ 9) = X v * ((exp (X v) + 1) / (exp (X v) - 1)) - 4" for v
    unfolding X [symmetric] by (rule tsz_response_explicit)
  have sync: "sync_response b n (v * 10 ^ 9) =
      (v * 10 ^ 9 / n) powr b / ((X v)\<^sup>2 * exp (X v) / (exp (X v) - 1)\<^sup>2)" for b n v
    unfolding X [symmetric] by (rule sync_response_explicit)
  have defined: "0 < X v \<and> exp (X v) - 1 \<noteq> 0 \<and>
      (X v)\<^sup>2 * exp (X v) / (exp (X v) - 1)\<^sup>2 \<noteq> 0 \<and> 0 < v * 10 ^ 9 / n"
    if "0 < v" "0 < n" for v n
  proof -
    from that have p: "0 < v * 10 ^ 9" by simp
    from x_of_pos [OF p] have "0 < X v" unfolding X .
    moreover from responses_defined_pos [OF p that(2)]
    have "exp (X v) - 1 \<noteq> 0 \<and> (X v)\<^sup>2 * exp (X v) / (exp (X v) - 1)\<^sup>2 \<noteq> 0 \<and>
        n \<noteq> 0 \<and> 0 < v * 10 ^ 9 / n"
      unfolding responses_defined_def g_nu_def X .
    ultimately show ?thesis by blast
  qed
  let ?vs = "[30, 44, 70, 100, 143, 217, 353, 545, 857] :: real list"
  {
    assume "map float_of default_frequencies = map Inr ?vs"
    then have parse: "comprehension (to_float float_of)
        (case None of None \<Rightarrow> default_frequencies | Some fs \<Rightarrow> fs) = Inr ?vs"
      by (simp add: comprehension_to_float)
    have n: "length default_frequencies = 9"
      by (simp add: default_frequencies_def)
    from build_F_theory_run [OF parse, of "- 31 / 10" "30 * 10 ^ 9" None]
    obtain F rv where run: "build_F_theory float_of (- 31 / 10) (30 * 10 ^ 9) None None =
        Inr (F, [''cmb'', ''tsz'', ''sync''], rv, default_frequencies)"
      and sh: "shape F = (length default_frequencies, 3)"
        "length (rows F) = length default_frequencies" "\<forall>row\<in>set (rows F). length row = 3"
      and col: "\<forall>j<3. column F j =
          map (\<lambda>v. response (- 31 / 10) (30 * 10 ^ 9) ([''cmb'', ''tsz'', ''sync''] ! j) (v * 10 ^ 9)) ?vs"
      by auto
    from col have c0: "column F 0 = map (\<lambda>v. response (- 31 / 10) (30 * 10 ^ 9) ''cmb'' (v * 10 ^ 9)) ?vs"
      by (auto dest: spec [of _ 0])
    from col have c1: "column F 1 = map (\<lambda>v. response (- 31 / 10) (30 * 10 ^ 9) ''tsz'' (v * 10 ^ 9)) ?vs"
      by (auto dest: spec [of _ 1])
    from col have c2: "column F 2 = map (\<lambda>v. response (- 31 / 10) (30 * 10 ^ 9) ''sync'' (v * 10 ^ 9)) ?vs"
      by (auto dest: spec [of _ 2])
    have r1: "response b n ''tsz'' = tsz_response" for b n
      by (simp add: response_def fun_eq_iff)
    have r2: "response b n ''sync'' = sync_response b n" for b n
      by (simp add: response_def fun_eq_iff)
    have d: "list_all (responses_defined (30 * 10 ^ 9)) (map (\<lambda>v. v * 10 ^ 9) ?vs)"
      by (simp add: responses_defined_pos)
    have range: "\<forall>v\<in>set ?vs. 1 / 2 < X v \<and> X v < 16 \<and> exp (X v) - 1 \<noteq> 0 \<and>
            (X v)\<^sup>2 * exp (X v) / (exp (X v) - 1)\<^sup>2 \<noteq> 0 \<and> 0 < v * 10 ^ 9 / (30 * 10 ^ 9)"
    proof
      fix v assume v: "v \<in> set ?vs"
      then have "v * 10 ^ 9 \<in> set (map (\<lambda>v. v * 10 ^ 9) ?vs)" by (simp only: set_map) (rule imageI)
      with default_x_range have "1 / 2 < x_of (v * 10 ^ 9) \<and> x_of (v * 10 ^ 9) < 16"
        unfolding list_all_iff by blast
      moreover from v have "0 < v" by auto
      from defined [OF this, of "30 * 10 ^ 9"]
      have "exp (X v) - 1 \<noteq> 0 \<and> (X v)\<^sup>2 * exp (X v) / (exp (X v) - 1)\<^sup>2 \<noteq> 0 \<and>
          0 < v * 10 ^ 9 / (30 * 10 ^ 9)"
        by simp
      ultimately show "1 / 2 < X v \<and> X v < 16 \<and> exp (X v) - 1 \<noteq> 0 \<and>
            (X v)\<^sup>2 * exp (X v) / (exp (X v) - 1)\<^sup>2 \<noteq> 0 \<and> 0 < v * 10 ^ 9 / (30 * 10 ^ 9)"
        unfolding X by blast
    qed
    have k0: "column F 0 = replicate 9 1"
      using c0 by (simp add: response_def cmb_response_def eval_nat_numeral)
    have k1: "column F 1 = map (\<lambda>v. X v * ((exp (X v) + 1) / (exp (X v) - 1)) - 4) ?vs"
      unfolding c1 r1 tsz by (rule refl)
    have k2: "column F 2 = map (\<lambda>v. (v * 10 ^ 9 / (30 * 10 ^ 9)) powr (- 31 / 10) /
                               ((X v)\<^sup>2 * exp (X v) / (exp (X v) - 1)\<^sup>2)) ?vs"
      unfolding c2 r2 sync by (rule refl)
    have bound: "\<bar>rows F ! i ! j\<bar> < 2 * 10 ^ 8" if i: "i < 9" and j: "j < 3" for i j
    proof -
      from col j have "column F j =
          map (\<lambda>v. response (- 31 / 10) (30 * 10 ^ 9) ([''cmb'', ''tsz'', ''sync''] ! j) (v * 10 ^ 9)) ?vs"
        by blast
      moreover have "i < length ?vs" using i by simp
      moreover have "rows F ! i ! j = column F j ! i"
        using i sh n by (simp add: rows_entry)
      ultimately have "rows F ! i ! j =
          response (- 31 / 10) (30 * 10 ^ 9) ([''cmb'', ''tsz'', ''sync''] ! j) (?vs ! i * 10 ^ 9)"
        by (simp only: nth_map)
      moreover have "?vs ! i * 10 ^ 9 \<in> set (map (\<lambda>v. v * 10 ^ 9) ?vs)"
        using i by (simp only: set_map) (rule imageI, rule nth_mem, simp)
      moreover have "[''cmb'', ''tsz'', ''sync''] ! j \<in> {''cmb'', ''tsz'', ''sync''}"
        using j by (auto simp: less_Suc_eq numeral_3_eq_3)
      ultimately show ?thesis
        using default_entry_bound by simp
    qed
    from sh n have sh': "shape F = (9, 3)" "length (rows F) = 9" by simp_all
    from run sh' sh(3) k0 k1 k2 range d bound
    show "\<exists>F reference_vectors.
         build_F_theory float_of (- 31 / 10) (30 * 10 ^ 9) None None =
           Inr (F, [''cmb'', ''tsz'', ''sync''], reference_vectors, default_frequencies) \<and>
         shape F = (9, 3) \<and> length (rows F) = 9 \<and> (\<forall>row\<in>set (rows F). length row = 3) \<and>
         column F 0 = replicate 9 1 \<and>
         column F 1 = map (\<lambda>v. X v * ((exp (X v) + 1) / (exp (X v) - 1)) - 4) ?vs \<and>
         column F 2 = map (\<lambda>v. (v * 10 ^ 9 / (30 * 10 ^ 9)) powr (- 31 / 10) /
                               ((X v)\<^sup>2 * exp (X v) / (exp (X v) - 1)\<^sup>2)) ?vs \<and>
         (\<forall>v\<in>set ?vs.
            1 / 2 < X v \<and> X v < 16 \<and> exp (X v) - 1 \<noteq> 0 \<and>
            (X v)\<^sup>2 * exp (X v) / (exp (X v) - 1)\<^sup>2 \<noteq> 0 \<and>
            0 < v * 10 ^ 9 / (30 * 10 ^ 9)) \<and>
         list_all (responses_defined (30 * 10 ^ 9)) (map (\<lambda>v. v * 10 ^ 9) ?vs) \<and>
         (\<forall>i<9. \<forall>j<3. \<bar>rows F ! i ! j\<bar> < 2 * 10 ^ 8)"
      by blast
  }
  {
    let ?tags = "case frequencies of None \<Rightarrow> default_frequencies | Some fs \<Rightarrow> fs"
    assume "map float_of ?tags = map Inr vs \<and> 0 < nu0 \<and> (\<forall>v\<in>set vs. 0 < v)"
    then have parse: "comprehension (to_float float_of) ?tags = Inr vs"
      and pos: "0 < nu0" "\<forall>v\<in>set vs. 0 < v"
      by (simp_all add: comprehension_to_float)
    from build_F_theory_run [OF parse, of beta_s nu0 "Some [''sync'', ''cmb'']"]
    obtain F rv where run: "build_F_theory float_of beta_s nu0 frequencies (Some [''sync'', ''cmb'']) =
        Inr (F, [''sync'', ''cmb''], rv, ?tags)"
      and col: "\<forall>j<2. column F j =
          map (\<lambda>v. response beta_s nu0 ([''sync'', ''cmb''] ! j) (v * 10 ^ 9)) vs"
      by (auto simp: lower_names)
    have r2: "response b n ''sync'' = sync_response b n" for b n
      by (simp add: response_def fun_eq_iff)
    from col have "column F 0 = map (\<lambda>v. response beta_s nu0 ''sync'' (v * 10 ^ 9)) vs"
      by (auto dest: spec [of _ 0])
    then have c0: "column F 0 = map (\<lambda>v. (v * 10 ^ 9 / nu0) powr beta_s /
                               ((X v)\<^sup>2 * exp (X v) / (exp (X v) - 1)\<^sup>2)) vs"
      unfolding r2 sync .
    from col have "column F 1 = map (\<lambda>v. response beta_s nu0 ''cmb'' (v * 10 ^ 9)) vs"
      by (auto dest: spec [of _ 1])
    then have c1: "column F 1 = map (\<lambda>v. 1) vs"
      by (simp add: response_def cmb_response_def)
    have "\<forall>v\<in>set vs. 0 < X v \<and> exp (X v) - 1 \<noteq> 0 \<and>
            (X v)\<^sup>2 * exp (X v) / (exp (X v) - 1)\<^sup>2 \<noteq> 0 \<and> 0 < v * 10 ^ 9 / nu0"
      using pos defined by blast
    with run c0 c1 show "\<exists>F reference_vectors.
         build_F_theory float_of beta_s nu0 frequencies (Some [''sync'', ''cmb'']) =
           Inr (F, [''sync'', ''cmb''], reference_vectors, ?tags) \<and>
         column F 0 = map (\<lambda>v. (v * 10 ^ 9 / nu0) powr beta_s /
                               ((X v)\<^sup>2 * exp (X v) / (exp (X v) - 1)\<^sup>2)) vs \<and>
         column F 1 = map (\<lambda>v. 1) vs \<and>
         (\<forall>v\<in>set vs. 0 < X v \<and> exp (X v) - 1 \<noteq> 0 \<and>
            (X v)\<^sup>2 * exp (X v) / (exp (X v) - 1)\<^sup>2 \<noteq> 0 \<and> 0 < v * 10 ^ 9 / nu0)"
      by blast
  }
qed

theorem build_F_theory_default_call_witness:
  fixes x44 :: real
  defines "x44 \<equiv> 662607015 / 10 ^ 42 * (44 * 10 ^ 9) / (1380649 / 10 ^ 29 * (27255 / 10 ^ 4))"
  shows
  "(\<exists>F reference_vectors.
      build_F_theory float_of_digits (- 31 / 10) (30 * 10 ^ 9) None None =
        Inr (F, [''cmb'', ''tsz'', ''sync''], reference_vectors, default_frequencies) \<and>
      shape F = (9, 3) \<and> column F 0 = replicate 9 1 \<and>
      column F 1 ! 1 = x44 * ((exp x44 + 1) / (exp x44 - 1)) - 4 \<and>
      column F 2 ! 1 =
        (44 * 10 ^ 9 / (30 * 10 ^ 9)) powr (- 31 / 10) / (x44\<^sup>2 * exp x44 / (exp x44 - 1)\<^sup>2)) \<and>
   (\<exists>F reference_vectors.
      build_F_theory float_of_digits (- 31 / 10) (30 * 10 ^ 9) None (Some [''sync'', ''cmb'']) =
        Inr (F, [''sync'', ''cmb''], reference_vectors, default_frequencies) \<and>
      column F 0 ! 1 =
        (44 * 10 ^ 9 / (30 * 10 ^ 9)) powr (- 31 / 10) / (x44\<^sup>2 * exp x44 / (exp x44 - 1)\<^sup>2) \<and>
      column F 1 = [1, 1, 1, 1, 1, 1, 1, 1, 1])"
proof -
  let ?vs = "[30, 44, 70, 100, 143, 217, 353, 545, 857] :: real list"
  note inst = build_F_theory_default_call [where float_of = float_of_digits and frequencies = None
      and vs = ?vs and beta_s = "- 31 / 10" and ?nu0.0 = "30 * 10 ^ 9"]
  from inst [THEN conjunct1, rule_format, OF float_of_digits_defaults]
  obtain F rv where run: "build_F_theory float_of_digits (- 31 / 10) (30 * 10 ^ 9) None None =
        Inr (F, [''cmb'', ''tsz'', ''sync''], rv, default_frequencies)"
    and sh: "shape F = (9, 3)" and k0: "column F 0 = replicate 9 1"
    and k1: "column F 1 =
      map (\<lambda>v. 662607015 / 10 ^ 42 * (v * 10 ^ 9) / (1380649 / 10 ^ 29 * (27255 / 10 ^ 4)) *
               ((exp (662607015 / 10 ^ 42 * (v * 10 ^ 9) / (1380649 / 10 ^ 29 * (27255 / 10 ^ 4))) + 1) /
                (exp (662607015 / 10 ^ 42 * (v * 10 ^ 9) / (1380649 / 10 ^ 29 * (27255 / 10 ^ 4))) - 1)) - 4)
        ?vs"
    and k2: "column F 2 =
      map (\<lambda>v. (v * 10 ^ 9 / (30 * 10 ^ 9)) powr (- 31 / 10) /
               ((662607015 / 10 ^ 42 * (v * 10 ^ 9) / (1380649 / 10 ^ 29 * (27255 / 10 ^ 4)))\<^sup>2 *
                exp (662607015 / 10 ^ 42 * (v * 10 ^ 9) / (1380649 / 10 ^ 29 * (27255 / 10 ^ 4))) /
                (exp (662607015 / 10 ^ 42 * (v * 10 ^ 9) / (1380649 / 10 ^ 29 * (27255 / 10 ^ 4))) - 1)\<^sup>2))
        ?vs"
    by blast
  have e1: "column F 1 ! 1 = x44 * ((exp x44 + 1) / (exp x44 - 1)) - 4"
    unfolding k1 x44_def by (simp only: list.map nth_Cons_Suc nth_Cons_0 One_nat_def)
  have e2: "column F 2 ! 1 =
        (44 * 10 ^ 9 / (30 * 10 ^ 9)) powr (- 31 / 10) / (x44\<^sup>2 * exp x44 / (exp x44 - 1)\<^sup>2)"
    unfolding k2 x44_def by (simp only: list.map nth_Cons_Suc nth_Cons_0 One_nat_def)
  have guard: "map float_of_digits (case None of None \<Rightarrow> default_frequencies | Some fs \<Rightarrow> fs) =
      map Inr ?vs \<and> (0 :: real) < 30 * 10 ^ 9 \<and> (\<forall>v\<in>set ?vs. 0 < v)"
    using float_of_digits_defaults by simp
  from inst [THEN conjunct2, rule_format, OF guard]
  obtain F' rv' where run': "build_F_theory float_of_digits (- 31 / 10) (30 * 10 ^ 9) None
        (Some [''sync'', ''cmb'']) = Inr (F', [''sync'', ''cmb''], rv', default_frequencies)"
    and c0: "column F' 0 =
      map (\<lambda>v. (v * 10 ^ 9 / (30 * 10 ^ 9)) powr (- 31 / 10) /
               ((662607015 / 10 ^ 42 * (v * 10 ^ 9) / (1380649 / 10 ^ 29 * (27255 / 10 ^ 4)))\<^sup>2 *
                exp (662607015 / 10 ^ 42 * (v * 10 ^ 9) / (1380649 / 10 ^ 29 * (27255 / 10 ^ 4))) /
                (exp (662607015 / 10 ^ 42 * (v * 10 ^ 9) / (1380649 / 10 ^ 29 * (27255 / 10 ^ 4))) - 1)\<^sup>2))
        ?vs"
    and c1: "column F' 1 = map (\<lambda>v. 1) ?vs"
    by auto
  have e0: "column F' 0 ! 1 =
        (44 * 10 ^ 9 / (30 * 10 ^ 9)) powr (- 31 / 10) / (x44\<^sup>2 * exp x44 / (exp x44 - 1)\<^sup>2)"
    unfolding c0 x44_def by (simp only: list.map nth_Cons_Suc nth_Cons_0 One_nat_def)
  from c1 have ones: "column F' 1 = [1, 1, 1, 1, 1, 1, 1, 1, 1]" by simp
  from run sh k0 e1 e2 run' e0 ones show ?thesis by blast
qed

end
